theory Spec2Isabelle
  imports Main "HOL-Library.Sublist" "HOL-Library.Multiset"
begin

section \<open>The coffee shop API: a shallow embedding of \<open>backend/src/api.py\<close>\<close>

text \<open>
  The module \<open>api.py\<close> registers five routes over one table of drinks and seven error
  handlers. Each route handler is embedded as a function from the table and the parsed
  request to the new table and an outcome (a returned response, an \<open>abort(code)\<close>, or a
  raised exception); the framework's rendering of an outcome through the registered error
  handlers is the function \<open>render\<close>.

  The values the handlers move around are parsed JSON documents, so the embedding starts
  with JSON values and with the two library calls the write path and the read path use on
  them, \<open>json.dumps\<close> and \<open>json.loads\<close>.
\<close>

subsection \<open>JSON values, \<open>json.dumps\<close> and \<open>json.loads\<close>\<close>

text \<open>
  A parsed JSON document, as \<open>request.get_json()\<close> hands it to a handler. An object is
  a Python \<open>dict\<close>: an association list in insertion order. Numbers are Python's unbounded
  integers; fractional numbers are outside the embedding. A string is a list of characters
  with code points below 256.

  \<open>json_dumps\<close> is \<open>json.dumps\<close> with its default arguments: separators \<open>", "\<close> and
  \<open>": "\<close>, and \<open>ensure_ascii\<close>, which escapes every character outside the printable
  ASCII range. \<open>json_loads\<close> is \<open>json.loads\<close>: the scanner dispatches on the first
  character, skips whitespace around the separators, rejects control characters inside
  strings, builds objects with \<open>dict\<close> (a repeated key keeps its first position and its
  last value) and rejects trailing data. A number with a fraction or an exponent, and a
  unicode escape of a code point from 256 on, have no value in the embedding and are
  answered with \<open>None\<close>. The recursion of the scanner is bounded by a fuel argument, which
  \<open>json_loads\<close> sets above the length of its input.
\<close>

datatype json =
    JNull
  | JBool bool
  | JInt int
  | JStr string
  | JArr "json list"
  | JObj "(string \<times> json) list"

definition hex_digit :: "nat \<Rightarrow> char" where
  "hex_digit n = (if n < 10 then char_of (48 + n) else char_of (87 + n))"

definition escape_char :: "char \<Rightarrow> string" where
  "escape_char c =
     (if c = CHR 0x22 then [CHR 0x5C, CHR 0x22]
      else if c = CHR 0x5C then [CHR 0x5C, CHR 0x5C]
      else if c = CHR 0x0A then [CHR 0x5C, CHR ''n'']
      else if c = CHR 0x0D then [CHR 0x5C, CHR ''r'']
      else if c = CHR 0x09 then [CHR 0x5C, CHR ''t'']
      else if c = CHR 0x08 then [CHR 0x5C, CHR ''b'']
      else if c = CHR 0x0C then [CHR 0x5C, CHR ''f'']
      else if 0x20 \<le> (of_char c :: nat) \<and> (of_char c :: nat) \<le> 0x7E then [c]
      else [CHR 0x5C, CHR ''u'', CHR ''0'', CHR ''0'',
            hex_digit ((of_char c :: nat) div 16), hex_digit ((of_char c :: nat) mod 16)])"

definition dumps_str :: "string \<Rightarrow> string" where
  "dumps_str s = CHR 0x22 # concat (map escape_char s) @ [CHR 0x22]"

fun digits :: "nat \<Rightarrow> string" where
  "digits n = (if n < 10 then [char_of (48 + n)] else digits (n div 10) @ [char_of (48 + n mod 10)])"

definition dumps_int :: "int \<Rightarrow> string" where
  "dumps_int i = (if i < 0 then CHR ''-'' # digits (nat (- i)) else digits (nat i))"

fun json_dumps :: "json \<Rightarrow> string"
  and dumps_items :: "json list \<Rightarrow> string"
  and dumps_members :: "(string \<times> json) list \<Rightarrow> string" where
  "json_dumps JNull = ''null''"
| "json_dumps (JBool b) = (if b then ''true'' else ''false'')"
| "json_dumps (JInt i) = dumps_int i"
| "json_dumps (JStr s) = dumps_str s"
| "json_dumps (JArr xs) = ''['' @ dumps_items xs @ '']''"
| "json_dumps (JObj kvs) = ''{'' @ dumps_members kvs @ ''}''"
| "dumps_items [] = []"
| "dumps_items [x] = json_dumps x"
| "dumps_items (x # y # ys) = json_dumps x @ '', '' @ dumps_items (y # ys)"
| "dumps_members [] = []"
| "dumps_members [(k, v)] = dumps_str k @ '': '' @ json_dumps v"
| "dumps_members ((k, v) # m # ms) = dumps_str k @ '': '' @ json_dumps v @ '', '' @ dumps_members (m # ms)"


definition is_ws :: "char \<Rightarrow> bool" where
  "is_ws c = (c = CHR 0x20 \<or> c = CHR 0x09 \<or> c = CHR 0x0A \<or> c = CHR 0x0D)"

definition skip_ws :: "string \<Rightarrow> string" where
  "skip_ws s = dropWhile is_ws s"

definition is_digit :: "char \<Rightarrow> bool" where
  "is_digit c = (48 \<le> (of_char c :: nat) \<and> (of_char c :: nat) \<le> 57)"

definition hex_value :: "char \<Rightarrow> nat option" where
  "hex_value c =
     (let n = (of_char c :: nat) in
      if 48 \<le> n \<and> n \<le> 57 then Some (n - 48)
      else if 97 \<le> n \<and> n \<le> 102 then Some (n - 87)
      else if 65 \<le> n \<and> n \<le> 70 then Some (n - 55)
      else None)"

definition hex4 :: "char \<Rightarrow> char \<Rightarrow> char \<Rightarrow> char \<Rightarrow> nat option" where
  "hex4 a b c d =
     (case (hex_value a, hex_value b, hex_value c, hex_value d) of
        (Some w, Some x, Some y, Some z) \<Rightarrow> Some (((w * 16 + x) * 16 + y) * 16 + z)
      | _ \<Rightarrow> None)"

definition unescape :: "char \<Rightarrow> char option" where
  "unescape e =
     (if e = CHR 0x22 then Some (CHR 0x22)
      else if e = CHR 0x5C then Some (CHR 0x5C)
      else if e = CHR ''/'' then Some (CHR ''/'')
      else if e = CHR ''b'' then Some (CHR 0x08)
      else if e = CHR ''f'' then Some (CHR 0x0C)
      else if e = CHR ''n'' then Some (CHR 0x0A)
      else if e = CHR ''r'' then Some (CHR 0x0D)
      else if e = CHR ''t'' then Some (CHR 0x09)
      else None)"

definition cons_char :: "char \<Rightarrow> (string \<times> string) option \<Rightarrow> (string \<times> string) option" where
  "cons_char c r = (case r of None \<Rightarrow> None | Some (s, rest) \<Rightarrow> Some (c # s, rest))"

fun scanstring :: "string \<Rightarrow> (string \<times> string) option" where
  "scanstring [] = None"
| "scanstring (c # cs) =
     (if c = CHR 0x22 then Some ([], cs)
      else if c = CHR 0x5C then
        (case cs of
           [] \<Rightarrow> None
         | e # es \<Rightarrow>
             if e = CHR ''u'' then
               (case es of
                  h1 # h2 # h3 # h4 # rest \<Rightarrow>
                    (case hex4 h1 h2 h3 h4 of
                       None \<Rightarrow> None
                     | Some n \<Rightarrow> if n < 256 then cons_char (char_of n) (scanstring rest) else None)
                | _ \<Rightarrow> None)
             else
               (case unescape e of
                  None \<Rightarrow> None
                | Some ch \<Rightarrow> cons_char ch (scanstring es)))
      else if (of_char c :: nat) < 0x20 then None
      else cons_char c (scanstring cs))"

definition nat_of_digits :: "string \<Rightarrow> nat" where
  "nat_of_digits ds = foldl (\<lambda>n d. 10 * n + ((of_char d :: nat) - 48)) 0 ds"

definition has_frac :: "string \<Rightarrow> bool" where
  "has_frac r = (case r of c # d # _ \<Rightarrow> c = CHR ''.'' \<and> is_digit d | _ \<Rightarrow> False)"

definition has_exp :: "string \<Rightarrow> bool" where
  "has_exp r =
     (case r of
        c # d # t \<Rightarrow>
          (c = CHR ''e'' \<or> c = CHR ''E'') \<and>
          (is_digit d \<or> ((d = CHR ''+'' \<or> d = CHR ''-'') \<and> (case t of x # _ \<Rightarrow> is_digit x | [] \<Rightarrow> False)))
      | _ \<Rightarrow> False)"

definition match_number :: "string \<Rightarrow> (json \<times> string) option" where
  "match_number s =
     (let neg = (case s of c # _ \<Rightarrow> c = CHR ''-'' | [] \<Rightarrow> False);
          s1 = (if neg then tl s else s)
      in case s1 of
           [] \<Rightarrow> None
         | d # t \<Rightarrow>
             if \<not> is_digit d then None
             else
               let ds = (if d = CHR ''0'' then [d] else takeWhile is_digit s1);
                   r = drop (length ds) s1
               in if has_frac r \<or> has_exp r then None
                  else Some (JInt (if neg then - int (nat_of_digits ds) else int (nat_of_digits ds)), r))"

fun dict_set :: "(string \<times> json) list \<Rightarrow> string \<Rightarrow> json \<Rightarrow> (string \<times> json) list" where
  "dict_set [] k v = [(k, v)]"
| "dict_set ((k', v') # d) k v = (if k' = k then (k', v) # d else (k', v') # dict_set d k v)"

definition py_dict :: "(string \<times> json) list \<Rightarrow> (string \<times> json) list" where
  "py_dict pairs = foldl (\<lambda>d (k, v). dict_set d k v) [] pairs"

fun scan_once :: "nat \<Rightarrow> string \<Rightarrow> (json \<times> string) option"
  and parse_array :: "nat \<Rightarrow> string \<Rightarrow> (json list \<times> string) option"
  and parse_object :: "nat \<Rightarrow> string \<Rightarrow> ((string \<times> json) list \<times> string) option" where
  "scan_once 0 s = None"
| "scan_once (Suc n) s =
     (case s of
        [] \<Rightarrow> None
      | c # cs \<Rightarrow>
          if c = CHR 0x22 then
            (case scanstring cs of None \<Rightarrow> None | Some (x, r) \<Rightarrow> Some (JStr x, r))
          else if c = CHR ''{'' then
            (case skip_ws cs of
               [] \<Rightarrow> None
             | d # r \<Rightarrow>
                 if d = CHR ''}'' then Some (JObj [], r)
                 else (case parse_object n (d # r) of
                         None \<Rightarrow> None
                       | Some (pairs, r') \<Rightarrow> Some (JObj (py_dict pairs), r')))
          else if c = CHR ''['' then
            (case skip_ws cs of
               [] \<Rightarrow> None
             | d # r \<Rightarrow>
                 if d = CHR '']'' then Some (JArr [], r)
                 else (case parse_array n (d # r) of
                         None \<Rightarrow> None
                       | Some (vs, r') \<Rightarrow> Some (JArr vs, r')))
          else if take 4 s = ''null'' then Some (JNull, drop 4 s)
          else if take 4 s = ''true'' then Some (JBool True, drop 4 s)
          else if take 5 s = ''false'' then Some (JBool False, drop 5 s)
          else match_number s)"
| "parse_array 0 s = None"
| "parse_array (Suc n) s =
     (case scan_once n s of
        None \<Rightarrow> None
      | Some (v, r) \<Rightarrow>
          (case skip_ws r of
             [] \<Rightarrow> None
           | d # r' \<Rightarrow>
               if d = CHR '']'' then Some ([v], r')
               else if d = CHR '','' then
                 (case parse_array n (skip_ws r') of
                    None \<Rightarrow> None
                  | Some (vs, r'') \<Rightarrow> Some (v # vs, r''))
               else None))"
| "parse_object 0 s = None"
| "parse_object (Suc n) s =
     (case s of
        [] \<Rightarrow> None
      | q # cs \<Rightarrow>
          if q \<noteq> CHR 0x22 then None
          else
            (case scanstring cs of
               None \<Rightarrow> None
             | Some (k, r) \<Rightarrow>
                 (case skip_ws r of
                    [] \<Rightarrow> None
                  | col # r1 \<Rightarrow>
                      if col \<noteq> CHR '':'' then None
                      else
                        (case scan_once n (skip_ws r1) of
                           None \<Rightarrow> None
                         | Some (v, r2) \<Rightarrow>
                             (case skip_ws r2 of
                                [] \<Rightarrow> None
                              | d # r3 \<Rightarrow>
                                  if d = CHR ''}'' then Some ([(k, v)], r3)
                                  else if d = CHR '','' then
                                    (case parse_object n (skip_ws r3) of
                                       None \<Rightarrow> None
                                     | Some (kvs, r4) \<Rightarrow> Some ((k, v) # kvs, r4))
                                  else None)))))"

definition json_loads :: "string \<Rightarrow> json option" where
  "json_loads s =
     (case scan_once (Suc (length s)) (skip_ws s) of
        None \<Rightarrow> None
      | Some (v, r) \<Rightarrow> if skip_ws r = [] then Some v else None)"



text \<open>
  Values that \<open>json.dumps\<close> writes and \<open>json.loads\<close> reads back unchanged: every object
  has distinct keys, as every Python \<open>dict\<close> has.
\<close>

fun wf_json :: "json \<Rightarrow> bool"
  and wf_items :: "json list \<Rightarrow> bool"
  and wf_members :: "(string \<times> json) list \<Rightarrow> bool" where
  "wf_json (JArr xs) = wf_items xs"
| "wf_json (JObj kvs) = (distinct (map fst kvs) \<and> wf_members kvs)"
| "wf_json _ = True"
| "wf_items [] = True"
| "wf_items (x # xs) = (wf_json x \<and> wf_items xs)"
| "wf_members [] = True"
| "wf_members ((k, v) # kvs) = (wf_json v \<and> wf_members kvs)"

text \<open>What may follow a value inside a serialized document: a separator, a closing bracket, or nothing.\<close>

definition closes :: "string \<Rightarrow> bool" where
  "closes r = (case r of [] \<Rightarrow> True | c # _ \<Rightarrow> c = CHR '','' \<or> c = CHR '']'' \<or> c = CHR ''}'')"

text \<open>
  The recipe structure of the data model: an ordered sequence of ingredient entries, each
  an object with a name, a color and a quantity (\<open>parts\<close>).
\<close>

fun is_ingredient :: "json \<Rightarrow> bool" where
  "is_ingredient (JObj [(k1, JStr n), (k2, JStr c), (k3, JInt p)]) =
     (k1 = ''name'' \<and> k2 = ''color'' \<and> k3 = ''parts'')"
| "is_ingredient _ = False"

fun is_recipe :: "json \<Rightarrow> bool" where
  "is_recipe (JArr es) = list_all is_ingredient es"
| "is_recipe _ = False"

subsection \<open>Python operations on the request body\<close>

text \<open>
  Modelled from the spec: the failures of the item store, of \<open>database/models.py\<close>, which
  is not among the sources. A missing row is not an exception here: the lookup returns
  \<open>None\<close> and the handler aborts.
\<close>

datatype store_error = ValidationFailed | Unavailable

text \<open>
  Modelled from the spec: the exception class \<open>AuthError\<close> of \<open>auth/auth.py\<close>, which is not
  among the sources. The handler in \<open>api.py\<close> reads its two attributes: the dict \<open>error\<close>,
  with a \<open>description\<close>, and the \<open>status_code\<close>.
\<close>

record AuthError =
  error :: "(string \<times> json) list"
  status_code :: nat

text \<open>The exceptions a handler can raise.\<close>

datatype py_exn =
    KeyError
  | TypeError
  | JSONDecodeError
  | StoreError store_error
  | AuthFailure AuthError

text \<open>
  \<open>key in data\<close> for a string \<open>key\<close>: membership among the keys of a dict, among the
  elements of a list, substring of a string; any other JSON value is not iterable.
\<close>

fun py_in :: "string \<Rightarrow> json \<Rightarrow> py_exn + bool" where
  "py_in k (JObj kvs) = Inr (k \<in> set (map fst kvs))"
| "py_in k (JArr xs) = Inr (JStr k \<in> set xs)"
| "py_in k (JStr s) = Inr (sublist k s)"
| "py_in k _ = Inl TypeError"

definition py_not_in :: "string \<Rightarrow> json \<Rightarrow> py_exn + bool" where
  "py_not_in k d = (case py_in k d of Inl e \<Rightarrow> Inl e | Inr b \<Rightarrow> Inr (\<not> b))"

text \<open>\<open>data[key]\<close> for a string \<open>key\<close>: only a dict can be indexed by a string.\<close>

fun py_getitem :: "json \<Rightarrow> string \<Rightarrow> py_exn + json" where
  "py_getitem (JObj kvs) k = (case map_of kvs k of None \<Rightarrow> Inl KeyError | Some v \<Rightarrow> Inr v)"
| "py_getitem _ k = Inl TypeError"

text \<open>The truth value of a string: the empty string is false, every other string is true.\<close>

definition py_truthy :: "string \<Rightarrow> bool" where
  "py_truthy s = (s \<noteq> [])"

text \<open>A list comprehension \<open>[f(x) for x in xs]\<close> whose body may raise: the first exception ends it.\<close>

fun comprehension :: "('a \<Rightarrow> py_exn + 'b) \<Rightarrow> 'a list \<Rightarrow> py_exn + 'b list" where
  "comprehension f [] = Inr []"
| "comprehension f (x # xs) =
     (case f x of
        Inl e \<Rightarrow> Inl e
      | Inr y \<Rightarrow> (case comprehension f xs of Inl e \<Rightarrow> Inl e | Inr ys \<Rightarrow> Inr (y # ys)))"

subsection \<open>The drinks table\<close>

text \<open>
  A row of the table. The handlers store \<open>data['title']\<close> as it comes, so the title is a
  JSON value; the recipe column holds the text that \<open>json.dumps\<close> produced.
\<close>

record drink =
  drink_id :: nat
  title :: json
  recipe :: string

text \<open>
  Modelled from the spec: the persisted state behind \<open>database/models.py\<close>, which is not among
  the sources: the rows of the table in the order they were inserted, the next id to assign
  (ids are never reused), and whether the storage can be reached.
\<close>

record db =
  rows :: "drink list"
  next_id :: nat
  available :: bool

text \<open>
  Modelled from the spec: \<open>db_drop_and_create_all\<close> of \<open>database/models.py\<close>, which is
  not among the sources. The spec describes it as recreating the table on every start.
\<close>

definition db_drop_and_create_all :: db where
  "db_drop_and_create_all = \<lparr>rows = [], next_id = 1, available = True\<rparr>"

text \<open>
  Modelled from the spec: the query \<open>Drink.query.order_by(Drink.id).all()\<close> against the
  model class of \<open>database/models.py\<close>, which is not among the sources. The spec's
  \<open>list_all\<close> returns the items ordered by id ascending and fails only when the storage is
  unavailable.
\<close>

definition Drink_query_all :: "db \<Rightarrow> py_exn + drink list" where
  "Drink_query_all d =
     (if available d then Inr (sort_key drink_id (rows d)) else Inl (StoreError Unavailable))"

text \<open>
  Modelled from the spec: \<open>Drink.query.get(id)\<close> against the model class of
  \<open>database/models.py\<close>, which is not among the sources. The spec's \<open>get\<close> returns the item
  with that id or nothing.
\<close>

definition Drink_query_get :: "db \<Rightarrow> nat \<Rightarrow> py_exn + drink option" where
  "Drink_query_get d i =
     (if available d then Inr (find (\<lambda>r. drink_id r = i) (rows d))
      else Inl (StoreError Unavailable))"

text \<open>
  Modelled from the spec: \<open>Drink.insert\<close> of \<open>database/models.py\<close>, which is not among the
  sources. The spec's \<open>create\<close> assigns a new id, persists and returns the persisted item,
  and fails with \<open>ValidationFailed\<close> when the title is absent or empty. Its other failure,
  a recipe that cannot be serialized, does not arise here: the handler passes the text
  that \<open>json.dumps\<close> returned.
\<close>

definition Drink_insert :: "db \<Rightarrow> json \<Rightarrow> string \<Rightarrow> py_exn + (db \<times> drink)" where
  "Drink_insert d t r =
     (if \<not> available d then Inl (StoreError Unavailable)
      else if t = JNull \<or> t = JStr [] then Inl (StoreError ValidationFailed)
      else
        let row = \<lparr>drink_id = next_id d, title = t, recipe = r\<rparr>
        in Inr (d\<lparr>rows := rows d @ [row], next_id := Suc (next_id d)\<rparr>, row))"

text \<open>
  Modelled from the spec: \<open>Drink.update\<close> of \<open>database/models.py\<close>, which is not among the
  sources. The spec's \<open>update\<close> persists the changed fields of the item with that id.
\<close>

definition Drink_update :: "db \<Rightarrow> drink \<Rightarrow> py_exn + db" where
  "Drink_update d row =
     (if available d
      then Inr (d\<lparr>rows := map (\<lambda>r. if drink_id r = drink_id row then row else r) (rows d)\<rparr>)
      else Inl (StoreError Unavailable))"

text \<open>
  Modelled from the spec: \<open>Drink.delete\<close> of \<open>database/models.py\<close>, which is not among the
  sources. The spec's \<open>delete\<close> removes the row with that id.
\<close>

definition Drink_delete :: "db \<Rightarrow> drink \<Rightarrow> py_exn + db" where
  "Drink_delete d row =
     (if available d
      then Inr (d\<lparr>rows := filter (\<lambda>r. drink_id r \<noteq> drink_id row) (rows d)\<rparr>)
      else Inl (StoreError Unavailable))"

text \<open>
  Modelled from the spec: \<open>Drink.long\<close> of \<open>database/models.py\<close>, which is not among the
  sources. The spec's long form holds the id, the title and the full recipe, deserialized
  from the stored text.
\<close>

definition long :: "drink \<Rightarrow> py_exn + json" where
  "long row =
     (case json_loads (recipe row) of
        None \<Rightarrow> Inl JSONDecodeError
      | Some r \<Rightarrow>
          Inr (JObj [(''id'', JInt (int (drink_id row))), (''title'', title row), (''recipe'', r)]))"

text \<open>
  Modelled from the spec: the redaction inside \<open>Drink.short\<close> of \<open>database/models.py\<close>, which
  is not among the sources: an ingredient entry without its quantity field \<open>parts\<close>.
\<close>

fun redact :: "json \<Rightarrow> json" where
  "redact (JObj kvs) = JObj (filter (\<lambda>kv. fst kv \<noteq> ''parts'') kvs)"
| "redact v = v"

text \<open>
  Modelled from the spec: \<open>Drink.short\<close> of \<open>database/models.py\<close>, which is not among the
  sources. The spec's short form holds the id, the title and the recipe with the quantity
  field of every ingredient entry left out; the recipe is a sequence of entries.
\<close>

definition short :: "drink \<Rightarrow> py_exn + json" where
  "short row =
     (case json_loads (recipe row) of
        None \<Rightarrow> Inl JSONDecodeError
      | Some (JArr es) \<Rightarrow>
          Inr (JObj [(''id'', JInt (int (drink_id row))), (''title'', title row),
                     (''recipe'', JArr (map redact es))])
      | Some _ \<Rightarrow> Inl TypeError)"

subsection \<open>Bearer tokens\<close>

text \<open>
  The token verifier is \<open>auth/auth.py\<close>, which is not among the sources; everything in this
  subsection is modelled from the spec. Signatures and claims are not computed: a
  request's credential is represented by what the verifier finds in it.
\<close>

text \<open>Modelled from the spec: the six kinds of \<open>AuthError\<close> that the token verifier raises.\<close>

datatype auth_kind =
    MissingToken
  | MalformedToken
  | InvalidSignature
  | Expired
  | InvalidClaims
  | InsufficientPermission

text \<open>
  Modelled from the spec: the credential of a request as the token verifier sees it: no
  bearer token, a token that fails one of the verifier's checks, or a verified token with
  its set of granted permissions.
\<close>

datatype bearer =
    NoBearer
  | NotWellFormed
  | BadSignature
  | ExpiredToken
  | BadClaims
  | Verified "string list"

text \<open>
  Modelled from the spec: the status an \<open>AuthError\<close> of each kind carries. The spec says each
  kind carries 401 or 403 and fixes 401 for a missing token and 403 for a missing
  permission; the four other kinds, which are failures of authentication, are given 401.
\<close>

fun kind_status :: "auth_kind \<Rightarrow> nat" where
  "kind_status InsufficientPermission = 403"
| "kind_status _ = 401"

text \<open>
  Modelled from the spec: the short message of an \<open>AuthError\<close>; the spec does not give the
  wording.
\<close>

fun kind_text :: "auth_kind \<Rightarrow> string" where
  "kind_text MissingToken = ''missing token''"
| "kind_text MalformedToken = ''malformed token''"
| "kind_text InvalidSignature = ''invalid signature''"
| "kind_text Expired = ''token expired''"
| "kind_text InvalidClaims = ''invalid claims''"
| "kind_text InsufficientPermission = ''insufficient permission''"

text \<open>Modelled from the spec: the \<open>AuthError\<close> raised for a kind of failure.\<close>

definition auth_failure :: "auth_kind \<Rightarrow> AuthError" where
  "auth_failure k = \<lparr>error = [(''description'', JStr (kind_text k))], status_code = kind_status k\<rparr>"

text \<open>
  Modelled from the spec: the contract \<open>verify(token, required_permission)\<close> of the token
  verifier: the failure the credential leads to, or the payload when the decoded
  permission set contains the required permission.
\<close>

fun verify :: "bearer \<Rightarrow> string \<Rightarrow> AuthError + string list" where
  "verify NoBearer p = Inl (auth_failure MissingToken)"
| "verify NotWellFormed p = Inl (auth_failure MalformedToken)"
| "verify BadSignature p = Inl (auth_failure InvalidSignature)"
| "verify ExpiredToken p = Inl (auth_failure Expired)"
| "verify BadClaims p = Inl (auth_failure InvalidClaims)"
| "verify (Verified perms) p =
     (if p \<in> set perms then Inr perms else Inl (auth_failure InsufficientPermission))"

subsection \<open>Responses and outcomes\<close>

text \<open>
  A response is a status and a body. \<open>jsonify\<close> makes a JSON body of a dict; the page the
  framework itself serves for an error without a registered handler is not JSON.
\<close>

datatype content = Json json | DefaultPage

record response =
  status :: nat
  body :: content

definition jsonify :: "(string \<times> json) list \<Rightarrow> content" where
  "jsonify d = Json (JObj d)"

datatype outcome = Return response | Abort nat | Raise py_exn

text \<open>
  Modelled from the spec: the decorator \<open>requires_auth(permission)\<close> of \<open>auth/auth.py\<close>, which
  is not among the sources. The wrapped handler runs only after the verifier accepted the
  credential, and receives the payload; otherwise the \<open>AuthError\<close> is raised.
\<close>

definition requires_auth ::
  "string \<Rightarrow> (string list \<Rightarrow> db \<times> outcome) \<Rightarrow> bearer \<Rightarrow> db \<Rightarrow> db \<times> outcome" where
  "requires_auth permission f b d =
     (case verify b permission of
        Inl e \<Rightarrow> (d, Raise (AuthFailure e))
      | Inr payload \<Rightarrow> f payload)"

subsection \<open>Route handlers\<close>

definition get_drinks :: "db \<Rightarrow> db \<times> outcome" where
  "get_drinks d =
     (case Drink_query_all d of
        Inl e \<Rightarrow> (d, Abort 404)
      | Inr drinks \<Rightarrow>
          (case comprehension short drinks of
             Inl e \<Rightarrow> (d, Abort 404)
           | Inr js \<Rightarrow>
               (d, Return \<lparr>status = 200,
                     body = jsonify [(''success'', JBool True), (''drinks'', JArr js)]\<rparr>)))"

definition get_drinks_detail :: "db \<Rightarrow> string list \<Rightarrow> db \<times> outcome" where
  "get_drinks_detail d payload =
     (case Drink_query_all d of
        Inl e \<Rightarrow> (d, Abort 404)
      | Inr drinks \<Rightarrow>
          (case comprehension long drinks of
             Inl e \<Rightarrow> (d, Abort 404)
           | Inr js \<Rightarrow>
               (d, Return \<lparr>status = 200,
                     body = jsonify [(''success'', JBool True), (''drinks'', JArr js)]\<rparr>)))"

text \<open>
  The guard of \<open>post_drink\<close> is the expression \<open>'title' and 'recipe' not in data\<close>: the
  operator \<open>and\<close> yields its right operand when the left one is true, and the left operand
  is the string \<open>'title'\<close> itself.
\<close>

definition post_drink :: "db \<Rightarrow> string list \<Rightarrow> json \<Rightarrow> db \<times> outcome" where
  "post_drink d payload data =
     (case (if py_truthy ''title'' then py_not_in ''recipe'' data else Inr False) of
        Inl e \<Rightarrow> (d, Raise e)
      | Inr True \<Rightarrow> (d, Abort 422)
      | Inr False \<Rightarrow>
          (case py_getitem data ''title'' of
             Inl e \<Rightarrow> (d, Raise e)
           | Inr t \<Rightarrow>
               (case py_getitem data ''recipe'' of
                  Inl e \<Rightarrow> (d, Raise e)
                | Inr r \<Rightarrow>
                    (case Drink_insert d t (json_dumps r) of
                       Inl e \<Rightarrow> (d, Raise e)
                     | Inr (d', row) \<Rightarrow>
                         (case long row of
                            Inl e \<Rightarrow> (d', Raise e)
                          | Inr l \<Rightarrow>
                              (d', Return \<lparr>status = 200,
                                     body = jsonify [(''success'', JBool True),
                                                     (''drinks'', JArr [l])]\<rparr>))))))"

definition update_drink :: "db \<Rightarrow> string list \<Rightarrow> nat \<Rightarrow> json \<Rightarrow> db \<times> outcome" where
  "update_drink d payload i data =
     (case Drink_query_get d i of
        Inl e \<Rightarrow> (d, Raise e)
      | Inr None \<Rightarrow> (d, Abort 404)
      | Inr (Some row) \<Rightarrow>
          (case py_in ''title'' data of
             Inl e \<Rightarrow> (d, Raise e)
           | Inr has_title \<Rightarrow>
               (case (if has_title
                      then (case py_getitem data ''title'' of
                              Inl e \<Rightarrow> Inl e
                            | Inr t \<Rightarrow> Inr (row\<lparr>title := t\<rparr>))
                      else Inr row) of
                  Inl e \<Rightarrow> (d, Raise e)
                | Inr row1 \<Rightarrow>
                    (case py_in ''recipe'' data of
                       Inl e \<Rightarrow> (d, Raise e)
                     | Inr has_recipe \<Rightarrow>
                         (case (if has_recipe
                                then (case py_getitem data ''recipe'' of
                                        Inl e \<Rightarrow> Inl e
                                      | Inr r \<Rightarrow> Inr (row1\<lparr>recipe := json_dumps r\<rparr>))
                                else Inr row1) of
                            Inl e \<Rightarrow> (d, Raise e)
                          | Inr row2 \<Rightarrow>
                              (case Drink_update d row2 of
                                 Inl e \<Rightarrow> (d, Raise e)
                               | Inr d' \<Rightarrow>
                                   (case long row2 of
                                      Inl e \<Rightarrow> (d', Raise e)
                                    | Inr l \<Rightarrow>
                                        (d', Return \<lparr>status = 200,
                                               body = jsonify [(''success'', JBool True),
                                                               (''drinks'', JArr [l])]\<rparr>))))))))"

definition delete_drink :: "db \<Rightarrow> string list \<Rightarrow> nat \<Rightarrow> db \<times> outcome" where
  "delete_drink d payload i =
     (case Drink_query_get d i of
        Inl e \<Rightarrow> (d, Raise e)
      | Inr None \<Rightarrow> (d, Abort 404)
      | Inr (Some row) \<Rightarrow>
          (case Drink_delete d row of
             Inl e \<Rightarrow> (d, Raise e)
           | Inr d' \<Rightarrow>
               (d', Return \<lparr>status = 200,
                      body = jsonify [(''success'', JBool True),
                                      (''delete'', JInt (int (drink_id row)))]\<rparr>)))"

subsection \<open>Error handlers\<close>

definition bad_request :: response where
  "bad_request =
     \<lparr>status = 400,
      body = jsonify [(''success'', JBool False), (''error'', JInt 400),
                      (''message'', JStr ''Bad Request'')]\<rparr>"

definition unauthorized :: response where
  "unauthorized =
     \<lparr>status = 401,
      body = jsonify [(''success'', JBool False), (''error'', JInt 401),
                      (''message'', JStr ''unauthorized'')]\<rparr>"

definition not_found :: response where
  "not_found =
     \<lparr>status = 404,
      body = jsonify [(''success'', JBool False), (''error'', JInt 404),
                      (''message'', JStr ''Not Found'')]\<rparr>"

text \<open>The handler of 405 is a second function named \<open>not_found\<close> in the source.\<close>

definition not_found_405 :: response where
  "not_found_405 =
     \<lparr>status = 405,
      body = jsonify [(''success'', JBool False), (''error'', JInt 405),
                      (''message'', JStr ''Method Not Allowed'')]\<rparr>"

definition uproccessable :: response where
  "uproccessable =
     \<lparr>status = 422,
      body = jsonify [(''success'', JBool False), (''error'', JInt 422),
                      (''message'', JStr ''Unproccessable'')]\<rparr>"

definition internal_server_error :: response where
  "internal_server_error =
     \<lparr>status = 500,
      body = jsonify [(''success'', JBool False), (''error'', JInt 500),
                      (''message'', JStr ''Internal Server Error'')]\<rparr>"

text \<open>
  The handler of \<open>AuthError\<close> reads \<open>error.error['description']\<close>, which raises when the
  dict has no such key.
\<close>

definition auth_error :: "AuthError \<Rightarrow> py_exn + response" where
  "auth_error e =
     (case map_of (error e) ''description'' of
        None \<Rightarrow> Inl KeyError
      | Some m \<Rightarrow>
          Inr \<lparr>status = status_code e,
               body = jsonify [(''success'', JBool False), (''error'', JInt (int (status_code e))),
                               (''message'', m)]\<rparr>)"

text \<open>The handlers registered with \<open>app.errorhandler\<close>, by status code.\<close>

definition errorhandler :: "nat \<Rightarrow> response option" where
  "errorhandler code =
     (if code = 400 then Some bad_request
      else if code = 401 then Some unauthorized
      else if code = 404 then Some not_found
      else if code = 405 then Some not_found_405
      else if code = 422 then Some uproccessable
      else if code = 500 then Some internal_server_error
      else None)"

text \<open>
  How the framework answers an outcome: a returned response goes out as it is; an abort
  goes to the handler registered for its code, or to the framework's own page; an
  \<open>AuthError\<close> goes to its handler; any other exception, also one raised inside an error
  handler, is an internal server error and goes to the handler of 500.
\<close>

fun render :: "outcome \<Rightarrow> response" where
  "render (Return r) = r"
| "render (Abort code) =
     (case errorhandler code of Some r \<Rightarrow> r | None \<Rightarrow> \<lparr>status = code, body = DefaultPage\<rparr>)"
| "render (Raise (AuthFailure e)) =
     (case auth_error e of Inl x \<Rightarrow> internal_server_error | Inr r \<Rightarrow> r)"
| "render (Raise x) = internal_server_error"

subsection \<open>The application\<close>

datatype route =
    GET_drinks
  | GET_drinks_detail
  | POST_drinks
  | PATCH_drinks nat
  | DELETE_drinks nat

record request =
  route :: route
  bearer :: bearer
  data :: json

text \<open>The permission each route is decorated with; \<open>GET /drinks\<close> is public.\<close>

fun required_permission :: "route \<Rightarrow> string option" where
  "required_permission GET_drinks = None"
| "required_permission GET_drinks_detail = Some ''get:drinks-detail''"
| "required_permission POST_drinks = Some ''post:drinks''"
| "required_permission (PATCH_drinks i) = Some ''patch:drinks''"
| "required_permission (DELETE_drinks i) = Some ''delete:drinks''"

definition dispatch :: "db \<Rightarrow> request \<Rightarrow> db \<times> outcome" where
  "dispatch d req =
     (case route req of
        GET_drinks \<Rightarrow> get_drinks d
      | GET_drinks_detail \<Rightarrow>
          requires_auth ''get:drinks-detail'' (\<lambda>payload. get_drinks_detail d payload) (bearer req) d
      | POST_drinks \<Rightarrow>
          requires_auth ''post:drinks'' (\<lambda>payload. post_drink d payload (data req)) (bearer req) d
      | PATCH_drinks i \<Rightarrow>
          requires_auth ''patch:drinks'' (\<lambda>payload. update_drink d payload i (data req)) (bearer req) d
      | DELETE_drinks i \<Rightarrow>
          requires_auth ''delete:drinks'' (\<lambda>payload. delete_drink d payload i) (bearer req) d)"

definition app :: "db \<Rightarrow> request \<Rightarrow> db \<times> response" where
  "app d req = (case dispatch d req of (d', out) \<Rightarrow> (d', render out))"

text \<open>The value a JSON object body holds under a key.\<close>

fun body_field :: "content \<Rightarrow> string \<Rightarrow> json option" where
  "body_field (Json (JObj kvs)) k = map_of kvs k"
| "body_field _ k = None"

text \<open>A response carries a \<open>success\<close> boolean when its body is a JSON object with one under that key.\<close>

definition has_success :: "response \<Rightarrow> bool" where
  "has_success r = (body_field (body r) ''success'' \<in> {Some (JBool True), Some (JBool False)})"

text \<open>The value a JSON object holds under a key.\<close>

fun json_get :: "json \<Rightarrow> string \<Rightarrow> json option" where
  "json_get (JObj kvs) k = map_of kvs k"
| "json_get v k = None"

section \<open>Serializing and deserializing\<close>

subsection \<open>Strings\<close>

lemma hex_value_hex_digit: "k < 16 \<Longrightarrow> hex_value (hex_digit k) = Some k"
  by (simp add: hex_value_def hex_digit_def Let_def)

lemma hex4_escape:
  fixes n :: nat
  assumes "n < 256"
  shows "hex4 (CHR ''0'') (CHR ''0'') (hex_digit (n div 16)) (hex_digit (n mod 16)) = Some n"
proof -
  have a: "n div 16 < 16" using assms by simp
  have b: "n mod 16 < 16" by simp
  have z: "hex_value (CHR ''0'') = Some 0" by (simp add: hex_value_def)
  show ?thesis
    by (simp add: hex4_def z hex_value_hex_digit [OF a] hex_value_hex_digit [OF b])
qed

lemma of_char_less_256: "(of_char c :: nat) < 256"
  by (cases c) simp

lemma scanstring_escape_char:
  "scanstring (escape_char c @ t) = cons_char c (scanstring t)"
proof -
  let ?n = "of_char c :: nat"
  have n: "?n < 256" by (rule of_char_less_256)
  have cb: "char_of ?n = c" by simp
  consider (q) "c = CHR 0x22" | (b) "c = CHR 0x5C" | (nl) "c = CHR 0x0A" | (cr) "c = CHR 0x0D"
    | (tab) "c = CHR 0x09" | (bs) "c = CHR 0x08" | (ff) "c = CHR 0x0C"
    | (plain) "c \<noteq> CHR 0x22" "c \<noteq> CHR 0x5C" "0x20 \<le> ?n" "?n \<le> 0x7E"
    | (uni) "c \<noteq> CHR 0x22" "c \<noteq> CHR 0x5C" "c \<noteq> CHR 0x0A" "c \<noteq> CHR 0x0D" "c \<noteq> CHR 0x09"
        "c \<noteq> CHR 0x08" "c \<noteq> CHR 0x0C" "\<not> (0x20 \<le> ?n \<and> ?n \<le> 0x7E)"
    by blast
  then show ?thesis
  proof cases
    case plain
    have "c \<noteq> CHR 0x0A" "c \<noteq> CHR 0x0D" "c \<noteq> CHR 0x09" "c \<noteq> CHR 0x08" "c \<noteq> CHR 0x0C"
      using plain(3) by auto
    then show ?thesis using plain by (simp add: escape_char_def)
  next
    case uni
    then show ?thesis
      using hex4_escape [OF n] cb
      by (simp add: escape_char_def unescape_def)
  qed (simp_all add: escape_char_def unescape_def)
qed

lemma scanstring_concat:
  "scanstring (concat (map escape_char s) @ CHR 0x22 # rest) = Some (s, rest)"
  by (induction s) (simp_all add: scanstring_escape_char cons_char_def)


subsection \<open>Integers\<close>


declare digits.simps [simp del]

lemma digits_nonempty: "digits n \<noteq> []"
  by (subst digits.simps) simp

lemma of_char_digit: "k < 10 \<Longrightarrow> (of_char (char_of (48 + k :: nat)) :: nat) = 48 + k"
  by simp

lemma is_digit_char_of: "k < 10 \<Longrightarrow> is_digit (char_of (48 + k :: nat))"
  by (simp add: is_digit_def)

lemma digits_all_digit: "c \<in> set (digits n) \<Longrightarrow> is_digit c"
proof (induction n rule: digits.induct)
  case (1 n)
  show ?case
  proof (cases "n < 10")
    case True
    with "1.prems" show ?thesis
      by (subst (asm) digits.simps) (simp add: is_digit_char_of)
  next
    case False
    have m: "n mod 10 < 10" by simp
    from "1.prems" False have "c \<in> set (digits (n div 10)) \<or> c = char_of (48 + n mod 10)"
      by (subst (asm) digits.simps) auto
    then show ?thesis
      using "1.IH" [OF False] is_digit_char_of [OF m] by blast
  qed
qed

lemma nat_of_digits_snoc:
  "nat_of_digits (ds @ [d]) = 10 * nat_of_digits ds + ((of_char d :: nat) - 48)"
  by (simp add: nat_of_digits_def)

lemma nat_of_digits_digits: "nat_of_digits (digits n) = n"
proof (induction n rule: digits.induct)
  case (1 n)
  show ?case
  proof (cases "n < 10")
    case True
    then show ?thesis
      by (subst digits.simps) (simp add: nat_of_digits_def)
  next
    case False
    have "(48 + n mod 10) mod 256 = 48 + n mod 10"
      by (rule mod_less) (simp add: less_le_trans [of _ 58 256])
    then have d: "(of_char (char_of (48 + n mod 10 :: nat)) :: nat) - 48 = n mod 10"
      by simp
    have "nat_of_digits (digits n) = nat_of_digits (digits (n div 10) @ [char_of (48 + n mod 10)])"
      using False by (subst digits.simps) simp
    also have "\<dots> = 10 * (n div 10) + n mod 10"
      using "1.IH" [OF False] d by (simp only: nat_of_digits_snoc)
    finally show ?thesis by simp
  qed
qed

lemma hd_digits_nonzero: "0 < n \<Longrightarrow> hd (digits n) \<noteq> CHR ''0''"
proof (induction n rule: digits.induct)
  case (1 n)
  show ?case
  proof (cases "n < 10")
    case True
    with "1.prems" show ?thesis
      by (subst digits.simps) (simp add: char_of_eq_iff take_bit_eq_mod)
  next
    case False
    then have "0 < n div 10" by simp
    from "1.IH" [OF False this] show ?thesis
      using False digits_nonempty [of "n div 10"]
      by (subst digits.simps) simp
  qed
qed

lemma digits_zero: "digits 0 = ''0''"
  by (subst digits.simps) (simp add: char_of_eq_iff)


lemma closes_not_digit: "closes (c # r) \<Longrightarrow> \<not> is_digit c"
  by (auto simp: closes_def is_digit_def)

lemma closes_no_frac: "closes r \<Longrightarrow> \<not> has_frac r"
  by (auto simp: closes_def has_frac_def split: list.splits)

lemma closes_no_exp: "closes r \<Longrightarrow> \<not> has_exp r"
  by (auto simp: closes_def has_exp_def split: list.splits)

lemma takeWhile_digits: "closes r \<Longrightarrow> takeWhile is_digit (digits n @ r) = digits n"
proof -
  assume c: "closes r"
  have "takeWhile is_digit r = []"
    using c closes_not_digit by (cases r) auto
  then show ?thesis
    by (simp add: takeWhile_append2 digits_all_digit)
qed

lemma is_digit_hd_digits: "is_digit (hd (digits n))"
  using digits_nonempty [of n] digits_all_digit [of "hd (digits n)" n] by simp

lemma minus_not_digit: "\<not> is_digit (CHR ''-'')"
  by (simp add: is_digit_def)

lemma match_number_digits:
  assumes c: "closes r"
  shows "match_number (digits n @ r) = Some (JInt (int n), r)"
proof -
  obtain d t where dt: "digits n = d # t"
    using digits_nonempty [of n] by (cases "digits n") auto
  have dig: "is_digit d" using is_digit_hd_digits [of n] dt by simp
  then have nm: "d \<noteq> CHR ''-''" using minus_not_digit by auto
  show ?thesis
  proof (cases "n = 0")
    case True
    then have "d = CHR ''0''" "t = []" using dt digits_zero by auto
    then show ?thesis
      using True dt c closes_no_frac [OF c] closes_no_exp [OF c]
      by (simp add: match_number_def nat_of_digits_def Let_def is_digit_def)
  next
    case False
    then have nz: "d \<noteq> CHR ''0''" using hd_digits_nonzero [of n] dt by simp
    have tw: "takeWhile is_digit (d # t @ r) = d # t"
      using takeWhile_digits [OF c, of n] dt by simp
    have nd: "nat_of_digits (d # t) = n"
      using nat_of_digits_digits [of n] dt by simp
    show ?thesis
      using dt dig nm nz closes_no_frac [OF c] closes_no_exp [OF c]
      by (simp add: match_number_def Let_def tw nd del: takeWhile.simps)
  qed
qed

lemma match_number_dumps_int:
  assumes c: "closes r"
  shows "match_number (dumps_int i @ r) = Some (JInt i, r)"
proof (cases "i < 0")
  case False
  then show ?thesis
    using match_number_digits [OF c, of "nat i"] by (simp add: dumps_int_def)
next
  case True
  let ?m = "nat (- i)"
  have pos: "0 < ?m" using True by simp
  obtain d t where dt: "digits ?m = d # t"
    using digits_nonempty [of ?m] by (cases "digits ?m") auto
  have dig: "is_digit d" using is_digit_hd_digits [of ?m] dt by simp
  have nz: "d \<noteq> CHR ''0''" using hd_digits_nonzero [OF pos] dt by simp
  have tw: "takeWhile is_digit (d # t @ r) = d # t"
    using takeWhile_digits [OF c, of ?m] dt by simp
  have nd: "nat_of_digits (d # t) = ?m"
    using nat_of_digits_digits [of ?m] dt by simp
  have "match_number (CHR ''-'' # d # t @ r) = Some (JInt (- int ?m), r)"
    using dig nz closes_no_frac [OF c] closes_no_exp [OF c]
    by (simp add: match_number_def Let_def tw nd del: takeWhile.simps)
  then show ?thesis
    using True dt by (simp add: dumps_int_def)
qed

lemma dumps_int_first:
  "\<exists>c t. dumps_int i = c # t \<and> (is_digit c \<or> c = CHR ''-'')"
proof (cases "i < 0")
  case True
  then show ?thesis by (simp add: dumps_int_def)
next
  case False
  then show ?thesis
    using digits_nonempty [of "nat i"] is_digit_hd_digits [of "nat i"]
    by (cases "digits (nat i)") (auto simp: dumps_int_def)
qed

lemma scan_once_int:
  assumes c: "closes r"
  shows "scan_once (Suc n) (dumps_int i @ r) = Some (JInt i, r)"
proof -
  obtain c0 t where ct: "dumps_int i = c0 # t" and k: "is_digit c0 \<or> c0 = CHR ''-''"
    using dumps_int_first by blast
  have ne: "c0 \<noteq> CHR 0x22" "c0 \<noteq> CHR ''{''" "c0 \<noteq> CHR ''[''"
    "c0 \<noteq> CHR ''n''" "c0 \<noteq> CHR ''t''" "c0 \<noteq> CHR ''f''"
    using k by (auto simp: is_digit_def)
  have "scan_once (Suc n) (c0 # t @ r) = match_number (c0 # t @ r)"
    using ne by simp
  then show ?thesis
    using match_number_dumps_int [OF c, of i] ct by simp
qed


subsection \<open>One step of the scanner\<close>


lemma skip_ws_keep: "\<not> is_ws c \<Longrightarrow> skip_ws (c # r) = c # r"
  by (simp add: skip_ws_def)

lemma skip_ws_space: "skip_ws (CHR 0x20 # r) = skip_ws r"
  by (simp add: skip_ws_def is_ws_def)

lemma skip_ws_Nil: "skip_ws [] = []"
  by (simp add: skip_ws_def)

lemma dumps_str_first: "dumps_str s @ r = CHR 0x22 # concat (map escape_char s) @ CHR 0x22 # r"
  by (simp add: dumps_str_def)

lemma json_dumps_first:
  "\<exists>c t. json_dumps v = c # t \<and> \<not> is_ws c \<and> c \<noteq> CHR '']'' \<and> c \<noteq> CHR ''}''"
proof (cases v)
  case (JInt i)
  obtain c t where "dumps_int i = c # t" "is_digit c \<or> c = CHR ''-''"
    using dumps_int_first by blast
  then show ?thesis using JInt by (auto simp: is_ws_def is_digit_def)
qed (auto simp: is_ws_def dumps_str_def)

lemma scan_once_str:
  "scan_once (Suc n) (dumps_str s @ r) = Some (JStr s, r)"
  by (simp add: dumps_str_first scanstring_concat)

lemma scan_once_arr_empty: "scan_once (Suc n) (CHR ''['' # CHR '']'' # r) = Some (JArr [], r)"
  by (simp add: skip_ws_def is_ws_def)

lemma scan_once_obj_empty: "scan_once (Suc n) (CHR ''{'' # CHR ''}'' # r) = Some (JObj [], r)"
  by (simp add: skip_ws_def is_ws_def)

lemma scan_once_arr:
  "\<not> is_ws d \<Longrightarrow> d \<noteq> CHR '']'' \<Longrightarrow> parse_array n (d # r) = Some (vs, r') \<Longrightarrow>
   scan_once (Suc n) (CHR ''['' # d # r) = Some (JArr vs, r')"
  by (simp add: skip_ws_keep)

lemma scan_once_obj:
  "\<not> is_ws d \<Longrightarrow> d \<noteq> CHR ''}'' \<Longrightarrow> parse_object n (d # r) = Some (pairs, r') \<Longrightarrow>
   scan_once (Suc n) (CHR ''{'' # d # r) = Some (JObj (py_dict pairs), r')"
  by (simp add: skip_ws_keep)

lemma parse_array_last:
  "scan_once n s = Some (v, CHR '']'' # r) \<Longrightarrow> parse_array (Suc n) s = Some ([v], r)"
  by (simp add: skip_ws_def is_ws_def)

lemma parse_array_more:
  "scan_once n s = Some (v, CHR '','' # CHR 0x20 # d # t) \<Longrightarrow> \<not> is_ws d \<Longrightarrow>
   parse_array n (d # t) = Some (vs, r) \<Longrightarrow> parse_array (Suc n) s = Some (v # vs, r)"
  by (simp add: skip_ws_def is_ws_def)

lemma parse_object_last:
  "scan_once n (d # t) = Some (v, CHR ''}'' # r) \<Longrightarrow> \<not> is_ws d \<Longrightarrow>
   parse_object (Suc n) (dumps_str k @ CHR '':'' # CHR 0x20 # d # t) = Some ([(k, v)], r)"
  by (simp add: dumps_str_first scanstring_concat skip_ws_def is_ws_def)

lemma parse_object_more:
  "scan_once n (d # t) = Some (v, CHR '','' # CHR 0x20 # CHR 0x22 # u) \<Longrightarrow> \<not> is_ws d \<Longrightarrow>
   parse_object n (CHR 0x22 # u) = Some (kvs, r) \<Longrightarrow>
   parse_object (Suc n) (dumps_str k @ CHR '':'' # CHR 0x20 # d # t) = Some ((k, v) # kvs, r)"
  by (simp add: dumps_str_first scanstring_concat skip_ws_def is_ws_def)

lemma scan_once_null: "scan_once (Suc n) (''null'' @ r) = Some (JNull, r)"
  by simp

lemma scan_once_true: "scan_once (Suc n) (''true'' @ r) = Some (JBool True, r)"
  by simp

lemma scan_once_false: "scan_once (Suc n) (''false'' @ r) = Some (JBool False, r)"
  by simp

lemma closes_simps:
  "closes (CHR '']'' # r)" "closes (CHR ''}'' # r)" "closes (CHR '','' # r)" "closes []"
  by (simp_all add: closes_def)


subsection \<open>Reading back what was written\<close>


declare scan_once.simps [simp del]

lemma dict_set_fresh: "k \<notin> fst ` set d \<Longrightarrow> dict_set d k v = d @ [(k, v)]"
  by (induction d) auto

lemma py_dict_foldl:
  "distinct (map fst (d @ pairs)) \<Longrightarrow>
   foldl (\<lambda>d (k, v). dict_set d k v) d pairs = d @ pairs"
proof (induction pairs arbitrary: d)
  case Nil
  then show ?case by simp
next
  case (Cons p pairs)
  obtain k v where p: "p = (k, v)" by (cases p)
  have fresh: "k \<notin> fst ` set d" using Cons.prems p by auto
  have "distinct (map fst ((d @ [(k, v)]) @ pairs))" using Cons.prems p by simp
  from Cons.IH [OF this] show ?case
    using p by (simp add: dict_set_fresh [OF fresh])
qed

lemma py_dict_distinct: "distinct (map fst pairs) \<Longrightarrow> py_dict pairs = pairs"
  using py_dict_foldl [of "[]" pairs] by (simp add: py_dict_def)

lemma roundtrip_aux:
  "wf_json v \<Longrightarrow> closes r \<Longrightarrow> length (json_dumps v) \<le> n \<Longrightarrow>
     scan_once n (json_dumps v @ r) = Some (v, r)"
  "wf_items xs \<Longrightarrow> xs \<noteq> [] \<Longrightarrow> length (dumps_items xs) < n \<Longrightarrow>
     parse_array n (dumps_items xs @ CHR '']'' # r) = Some (xs, r)"
  "wf_members kvs \<Longrightarrow> kvs \<noteq> [] \<Longrightarrow> length (dumps_members kvs) < n \<Longrightarrow>
     parse_object n (dumps_members kvs @ CHR ''}'' # r) = Some (kvs, r)"
proof (induction v and xs and kvs arbitrary: n r and n r and n r
       rule: json_dumps_dumps_items_dumps_members.induct)
  case 1
  then obtain m where "n = Suc m" by (cases n) auto
  then show ?case using scan_once_null [of m r] by simp
next
  case (2 b)
  then obtain m where "n = Suc m" by (cases n) (auto split: if_splits)
  then show ?case using scan_once_true [of m r] scan_once_false [of m r] by (cases b) simp_all
next
  case (3 i)
  obtain c t where "dumps_int i = c # t" using dumps_int_first by blast
  with 3 obtain m where "n = Suc m" by (cases n) auto
  then show ?case using scan_once_int [OF "3.prems"(2)] by simp
next
  case (4 s)
  then obtain m where "n = Suc m" by (cases n) (auto simp: dumps_str_def)
  then show ?case using scan_once_str by simp
next
  case (5 xs)
  from "5.prems"(3) obtain m where n: "n = Suc m" and m: "length (dumps_items xs) < m"
    by (cases n) auto
  show ?case
  proof (cases xs)
    case Nil
    then show ?thesis using n scan_once_arr_empty by simp
  next
    case (Cons x xs')
    then have ne: "xs \<noteq> []" by simp
    have wf: "wf_items xs" using "5.prems"(1) by simp
    have pa: "parse_array m (dumps_items xs @ CHR '']'' # r) = Some (xs, r)"
      by (rule "5.IH" [OF wf ne m])
    obtain d t where dt: "dumps_items xs = d # t" "\<not> is_ws d" "d \<noteq> CHR '']''"
    proof (cases xs')
      case Nil
      then show ?thesis using json_dumps_first [of x] Cons that by auto
    next
      case (Cons y ys)
      then show ?thesis using json_dumps_first [of x] \<open>xs = x # xs'\<close> that by auto
    qed
    have "scan_once (Suc m) (CHR ''['' # d # t @ CHR '']'' # r) = Some (JArr xs, r)"
      using pa dt by (intro scan_once_arr) simp_all
    then show ?thesis using n dt by simp
  qed
next
  case (6 kvs)
  from "6.prems"(3) obtain m where n: "n = Suc m" and m: "length (dumps_members kvs) < m"
    by (cases n) auto
  have dist: "distinct (map fst kvs)" using "6.prems"(1) by simp
  show ?case
  proof (cases kvs)
    case Nil
    then show ?thesis using n scan_once_obj_empty by simp
  next
    case (Cons p kvs')
    then have ne: "kvs \<noteq> []" by simp
    have wf: "wf_members kvs" using "6.prems"(1) by simp
    have po: "parse_object m (dumps_members kvs @ CHR ''}'' # r) = Some (kvs, r)"
      by (rule "6.IH" [OF wf ne m])
    obtain t where dt: "dumps_members kvs = CHR 0x22 # t"
    proof (cases kvs')
      case Nil
      then show ?thesis using Cons that by (cases p) (auto simp: dumps_str_def)
    next
      case (Cons q qs)
      then show ?thesis using \<open>kvs = p # kvs'\<close> that by (cases p) (auto simp: dumps_str_def)
    qed
    have "scan_once (Suc m) (CHR ''{'' # CHR 0x22 # t @ CHR ''}'' # r) = Some (JObj (py_dict kvs), r)"
      using po dt by (intro scan_once_obj) (simp_all add: is_ws_def)
    then show ?thesis using n dt by (simp add: py_dict_distinct [OF dist])
  qed
next
  case 7
  then show ?case by simp
next
  case (8 x)
  from "8.prems"(3) obtain m where n: "n = Suc m" and m: "length (json_dumps x) \<le> m"
    by (cases n) auto
  have wf: "wf_json x" using "8.prems"(1) by simp
  have "scan_once m (json_dumps x @ CHR '']'' # r) = Some (x, CHR '']'' # r)"
    by (rule "8.IH" [OF wf closes_simps(1) m])
  from parse_array_last [OF this] show ?case using n by simp
next
  case (9 x y ys)
  from "9.prems"(3) obtain m where n: "n = Suc m"
    and m1: "length (json_dumps x) \<le> m" and m2: "length (dumps_items (y # ys)) < m"
    by (cases n) auto
  have wf1: "wf_json x" and wf2: "wf_items (y # ys)" using "9.prems"(1) by simp_all
  obtain d t where dt: "dumps_items (y # ys) = d # t" "\<not> is_ws d"
    using json_dumps_first [of y] by (cases ys) auto
  have s1: "scan_once m (json_dumps x @ CHR '','' # CHR 0x20 # d # t @ CHR '']'' # r)
              = Some (x, CHR '','' # CHR 0x20 # d # t @ CHR '']'' # r)"
    by (rule "9.IH"(1) [OF wf1 closes_simps(3) m1])
  have s2: "parse_array m (d # t @ CHR '']'' # r) = Some (y # ys, r)"
    using "9.IH"(2) [OF wf2 _ m2, of r] dt by simp
  from parse_array_more [OF s1 dt(2) s2] show ?case using n dt by simp
next
  case 10
  then show ?case by simp
next
  case (11 k v)
  from "11.prems"(3) obtain m where n: "n = Suc m" and m: "length (json_dumps v) \<le> m"
    by (cases n) auto
  have wf: "wf_json v" using "11.prems"(1) by simp
  obtain d t where dt: "json_dumps v = d # t" "\<not> is_ws d"
    using json_dumps_first [of v] by auto
  have "scan_once m (d # t @ CHR ''}'' # r) = Some (v, CHR ''}'' # r)"
    using "11.IH" [OF wf closes_simps(2) m, of r] dt by simp
  from parse_object_last [OF this dt(2), of k] show ?case using n dt by simp
next
  case (12 k v p ps)
  from "12.prems"(3) obtain m where n: "n = Suc m"
    and m1: "length (json_dumps v) \<le> m" and m2: "length (dumps_members (p # ps)) < m"
    by (cases n) auto
  have wf1: "wf_json v" and wf2: "wf_members (p # ps)" using "12.prems"(1) by simp_all
  obtain d t where dt: "json_dumps v = d # t" "\<not> is_ws d"
    using json_dumps_first [of v] by auto
  obtain u where du: "dumps_members (p # ps) = CHR 0x22 # u"
    by (cases p; cases ps) (auto simp: dumps_str_def)
  have s1: "scan_once m (d # t @ CHR '','' # CHR 0x20 # CHR 0x22 # u @ CHR ''}'' # r)
              = Some (v, CHR '','' # CHR 0x20 # CHR 0x22 # u @ CHR ''}'' # r)"
    using "12.IH"(1) [OF wf1 closes_simps(3) m1] dt by simp
  have s2: "parse_object m (CHR 0x22 # u @ CHR ''}'' # r) = Some (p # ps, r)"
    using "12.IH"(2) [OF wf2 _ m2, of r] du by simp
  from parse_object_more [OF s1 dt(2) s2, of k] show ?case using n dt du by simp
qed

lemma json_roundtrip: "wf_json v \<Longrightarrow> json_loads (json_dumps v) = Some v"
  using roundtrip_aux(1) [of v "[]" "Suc (length (json_dumps v))"] json_dumps_first [of v]
  by (auto simp: json_loads_def closes_def skip_ws_keep skip_ws_Nil)

section \<open>Facts about the handlers\<close>

subsection \<open>The decorator and the error handlers\<close>

lemma requires_auth_granted:
  "p \<in> set perms \<Longrightarrow> requires_auth p f (Verified perms) d = f perms"
  by (simp add: requires_auth_def)

lemma requires_auth_refused:
  "verify b p = Inl e \<Longrightarrow> requires_auth p f b d = (d, Raise (AuthFailure e))"
  by (simp add: requires_auth_def)

lemma verify_refused_kind: "verify b p = Inl e \<Longrightarrow> \<exists>k. e = auth_failure k"
  by (cases b) (auto split: if_splits)

lemma auth_error_auth_failure:
  "auth_error (auth_failure k) =
     Inr \<lparr>status = kind_status k,
          body = Json (JObj [(''success'', JBool False), (''error'', JInt (int (kind_status k))),
                             (''message'', JStr (kind_text k))])\<rparr>"
  by (simp add: auth_error_def auth_failure_def jsonify_def)

lemma status_code_auth_failure: "status_code (auth_failure k) = kind_status k"
  by (simp add: auth_failure_def)

lemma kind_status_cases: "kind_status k = 401 \<or> kind_status k = 403"
  by (cases k) simp_all

lemma render_refused:
  "verify b p = Inl e \<Longrightarrow> status (render (Raise (AuthFailure e))) = status_code e"
  using verify_refused_kind [of b p e]
  by (auto simp: auth_error_auth_failure status_code_auth_failure)

lemma dispatch_refused:
  "required_permission rt = Some p \<Longrightarrow> verify b p = Inl e \<Longrightarrow>
   dispatch d \<lparr>route = rt, bearer = b, data = x\<rparr> = (d, Raise (AuthFailure e))"
  by (cases rt) (auto simp: dispatch_def requires_auth_refused)

lemma app_refused:
  "required_permission rt = Some p \<Longrightarrow> verify b p = Inl e \<Longrightarrow>
   fst (app d \<lparr>route = rt, bearer = b, data = x\<rparr>) = d \<and>
   status (snd (app d \<lparr>route = rt, bearer = b, data = x\<rparr>)) = status_code e"
  using dispatch_refused [of rt p b e d x] render_refused [of b p e]
  by (simp add: app_def)

subsection \<open>Looking rows up after a change of the table\<close>

lemma find_id: "find (\<lambda>r. drink_id r = i) rs = Some row \<Longrightarrow> drink_id row = i"
  by (induction rs) (auto split: if_splits)

lemma find_filter_same: "find (\<lambda>r. drink_id r = i) (filter (\<lambda>r. drink_id r \<noteq> i) rs) = None"
  by (induction rs) auto

lemma find_filter_other:
  "j \<noteq> i \<Longrightarrow>
   find (\<lambda>r. drink_id r = j) (filter (\<lambda>r. drink_id r \<noteq> i) rs) = find (\<lambda>r. drink_id r = j) rs"
  by (induction rs) auto

lemma query_get_available: "Drink_query_get d i = Inr x \<Longrightarrow> available d"
  by (simp add: Drink_query_get_def split: if_splits)

lemma query_get_find:
  "Drink_query_get d i = Inr x \<Longrightarrow> find (\<lambda>r. drink_id r = i) (rows d) = x"
  by (simp add: Drink_query_get_def split: if_splits)


subsection \<open>Every outcome is rendered as an envelope\<close>

lemma has_success_raise: "has_success (render (Raise x))"
proof (cases x)
  case (AuthFailure e)
  then show ?thesis
    by (cases "map_of (error e) ''description''")
       (simp_all add: has_success_def auth_error_def internal_server_error_def jsonify_def)
qed (simp_all add: has_success_def internal_server_error_def jsonify_def)

lemma has_success_abort_404: "has_success (render (Abort 404))"
  by (simp add: has_success_def errorhandler_def not_found_def jsonify_def)

lemma has_success_abort_422: "has_success (render (Abort 422))"
  by (simp add: has_success_def errorhandler_def uproccessable_def jsonify_def)

lemma has_success_return:
  "has_success (render (Return \<lparr>status = s, body = jsonify ((''success'', JBool b) # kvs)\<rparr>))"
  by (simp add: has_success_def jsonify_def)

lemmas has_success_render =
  has_success_raise has_success_abort_404 has_success_abort_422 has_success_return

lemma has_success_get_drinks: "has_success (render (snd (get_drinks d)))"
  unfolding get_drinks_def
  by (simp add: has_success_render del: render.simps split: sum.split)

lemma has_success_get_drinks_detail: "has_success (render (snd (get_drinks_detail d p)))"
  unfolding get_drinks_detail_def
  by (simp add: has_success_render del: render.simps split: sum.split)

lemma has_success_post_drink: "has_success (render (snd (post_drink d p x)))"
  unfolding post_drink_def
  by (simp add: has_success_render del: render.simps split: sum.split bool.split prod.split)

lemma has_success_update_drink: "has_success (render (snd (update_drink d p i x)))"
  unfolding update_drink_def
  by (simp add: has_success_render del: render.simps split: sum.split option.split)

lemma has_success_delete_drink: "has_success (render (snd (delete_drink d p i)))"
  unfolding delete_drink_def
  by (simp add: has_success_render del: render.simps split: sum.split option.split)

lemma has_success_requires_auth:
  assumes "\<And>payload. has_success (render (snd (f payload)))"
  shows "has_success (render (snd (requires_auth p f cred d)))"
proof (cases "verify cred p")
  case (Inl e)
  then show ?thesis
    by (simp add: requires_auth_def has_success_raise del: render.simps)
next
  case (Inr payload)
  then show ?thesis using assms [of payload] by (simp add: requires_auth_def)
qed

lemma has_success_app: "has_success (snd (app d req))"
proof -
  have "has_success (render (snd (dispatch d req)))"
    unfolding dispatch_def
    by (cases "route req")
       (simp_all add: has_success_get_drinks has_success_requires_auth
          has_success_get_drinks_detail has_success_post_drink has_success_update_drink
          has_success_delete_drink del: render.simps)
  then show ?thesis by (cases "dispatch d req") (simp add: app_def)
qed


subsection \<open>Listing\<close>

lemma comprehension_map:
  "comprehension f xs = Inr ys \<Longrightarrow> (\<And>x y. f x = Inr y \<Longrightarrow> g y = h x) \<Longrightarrow> map g ys = map h xs"
proof (induction xs arbitrary: ys)
  case Nil
  then show ?case by simp
next
  case (Cons x xs)
  from Cons.prems(1) obtain y ys' where fx: "f x = Inr y" and rest: "comprehension f xs = Inr ys'"
    and ys: "ys = y # ys'"
    by (auto split: sum.splits)
  show ?case
    using Cons.IH [OF rest Cons.prems(2)] Cons.prems(2) [OF fx] ys by simp
qed

lemma comprehension_pointwise:
  "comprehension f xs = Inr ys \<Longrightarrow> list_all2 (\<lambda>x y. f x = Inr y) xs ys"
proof (induction xs arbitrary: ys)
  case Nil
  then show ?case by simp
next
  case (Cons x xs)
  from Cons.prems obtain y ys' where fx: "f x = Inr y" and rest: "comprehension f xs = Inr ys'"
    and ys: "ys = y # ys'"
    by (auto split: sum.splits)
  show ?case using Cons.IH [OF rest] fx ys by simp
qed

lemma short_id: "short row = Inr j \<Longrightarrow> json_get j ''id'' = Some (JInt (int (drink_id row)))"
  by (auto simp: short_def split: option.splits json.splits)

lemma long_id: "long row = Inr j \<Longrightarrow> json_get j ''id'' = Some (JInt (int (drink_id row)))"
  by (auto simp: long_def split: option.splits)

lemma loads_empty_array: "json_loads ''[]'' = Some (JArr [])"
  by (simp add: json_loads_def scan_once.simps skip_ws_def is_ws_def)


subsection \<open>Updating a row\<close>

lemma find_map_same:
  "find (\<lambda>r. drink_id r = i) rs = Some row \<Longrightarrow> drink_id row' = i \<Longrightarrow>
   find (\<lambda>r. drink_id r = i) (map (\<lambda>r. if drink_id r = i then row' else r) rs) = Some row'"
  by (induction rs) (auto split: if_splits)

lemma find_map_other:
  "drink_id row' = i \<Longrightarrow> j \<noteq> i \<Longrightarrow>
   find (\<lambda>r. drink_id r = j) (map (\<lambda>r. if drink_id r = i then row' else r) rs)
     = find (\<lambda>r. drink_id r = j) rs"
  by (induction rs) auto

lemma map_update_absent:
  "i \<notin> drink_id ` set rs \<Longrightarrow> map (\<lambda>r. if drink_id r = i then row else r) rs = rs"
  by (induction rs) auto

lemma map_update_same:
  "find (\<lambda>r. drink_id r = i) rs = Some row \<Longrightarrow> distinct (map drink_id rs) \<Longrightarrow>
   map (\<lambda>r. if drink_id r = i then row else r) rs = rs"
proof (induction rs)
  case Nil
  then show ?case by simp
next
  case (Cons a rs)
  show ?case
  proof (cases "drink_id a = i")
    case True
    then have "row = a" using Cons.prems(1) by simp
    moreover have "i \<notin> drink_id ` set rs" using Cons.prems(2) True by auto
    ultimately show ?thesis using True by (simp add: map_update_absent)
  next
    case False
    then show ?thesis using Cons by simp
  qed
qed

lemma py_in_obj: "py_in k (JObj kvs) = Inr (map_of kvs k \<noteq> None)"
  by (simp add: map_of_eq_None_iff)

text \<open>What \<open>update_drink\<close> does to the table and what it answers, for a body that is an object.\<close>

lemma update_drink_obj:
  fixes kvs :: "(string \<times> json) list"
  assumes "Drink_query_get d i = Inr (Some row)"
  defines "row2 \<equiv> \<lparr>drink_id = drink_id row,
                    title = (case map_of kvs ''title'' of None \<Rightarrow> title row | Some t \<Rightarrow> t),
                    recipe = (case map_of kvs ''recipe'' of None \<Rightarrow> recipe row
                              | Some r \<Rightarrow> json_dumps r)\<rparr>"
  shows "update_drink d p i (JObj kvs) =
           (d\<lparr>rows := map (\<lambda>r. if drink_id r = i then row2 else r) (rows d)\<rparr>,
            case long row2 of
              Inl e \<Rightarrow> Raise e
            | Inr l \<Rightarrow> Return \<lparr>status = 200,
                               body = jsonify [(''success'', JBool True), (''drinks'', JArr [l])]\<rparr>)"
proof -
  have av: "available d" by (rule query_get_available [OF assms(1)])
  have rid: "drink_id row = i" using query_get_find [OF assms(1)] by (rule find_id)
  show ?thesis
  proof (cases "map_of kvs ''title''")
    case None
    note t = None
    show ?thesis
    proof (cases "map_of kvs ''recipe''")
      case None
      have r2: "row2 = row" using t None by (simp add: row2_def)
      show ?thesis
        unfolding update_drink_def r2
        using assms(1) av rid t None
        by (simp add: py_in_obj Drink_update_def del: py_in.simps split: sum.split)
    next
      case (Some r)
      have r2: "row2 = row\<lparr>recipe := json_dumps r\<rparr>" using t Some by (simp add: row2_def)
      show ?thesis
        unfolding update_drink_def r2
        using assms(1) av rid t Some
        by (simp add: py_in_obj Drink_update_def del: py_in.simps split: sum.split)
    qed
  next
    case (Some tv)
    note t = Some
    show ?thesis
    proof (cases "map_of kvs ''recipe''")
      case None
      have r2: "row2 = row\<lparr>title := tv\<rparr>" using t None by (simp add: row2_def)
      show ?thesis
        unfolding update_drink_def r2
        using assms(1) av rid t None
        by (simp add: py_in_obj Drink_update_def del: py_in.simps split: sum.split)
    next
      case (Some r)
      have r2: "row2 = row\<lparr>title := tv, recipe := json_dumps r\<rparr>" using t Some by (simp add: row2_def)
      show ?thesis
        unfolding update_drink_def r2
        using assms(1) av rid t Some
        by (simp add: py_in_obj Drink_update_def del: py_in.simps split: sum.split)
    qed
  qed
qed


subsection \<open>Recipes\<close>

lemma is_ingredient_wf: "is_ingredient e \<Longrightarrow> wf_json e"
  by (induction e rule: is_ingredient.induct) simp_all

lemma ingredients_wf: "list_all is_ingredient es \<Longrightarrow> wf_items es"
  by (induction es) (simp_all add: is_ingredient_wf)

lemma is_recipe_wf: "is_recipe r \<Longrightarrow> wf_json r"
  by (cases r) (simp_all add: ingredients_wf)

lemma long_dumps:
  "wf_json r \<Longrightarrow>
   long \<lparr>drink_id = n, title = t, recipe = json_dumps r\<rparr>
     = Inr (JObj [(''id'', JInt (int n)), (''title'', t), (''recipe'', r)])"
  by (simp add: long_def json_roundtrip)

lemma post_drink_obj:
  assumes "available d" and "map_of kvs ''title'' = Some t" and "t \<noteq> JNull" and "t \<noteq> JStr []"
    and "map_of kvs ''recipe'' = Some r" and "wf_json r"
  shows "post_drink d p (JObj kvs) =
           (d\<lparr>rows := rows d @ [\<lparr>drink_id = next_id d, title = t, recipe = json_dumps r\<rparr>],
              next_id := Suc (next_id d)\<rparr>,
            Return \<lparr>status = 200,
                    body = jsonify [(''success'', JBool True),
                             (''drinks'', JArr [JObj [(''id'', JInt (int (next_id d))), (''title'', t),
                                                      (''recipe'', r)]])]\<rparr>)"
  using assms long_dumps [OF assms(6), of "next_id d" t]
  by (simp add: post_drink_def py_truthy_def py_not_in_def py_in_obj Drink_insert_def Let_def
      del: py_in.simps)


section \<open>The claims\<close>

text \<open>
  Claim C1. A POST whose body lacks \<open>title\<close> or lacks \<open>recipe\<close> is to be rejected with
  422. The guard of \<open>post_drink\<close> only tests \<open>recipe\<close>: a body with a recipe and no title
  passes it, \<open>data['title']\<close> raises \<open>KeyError\<close>, and the answer is the internal server
  error 500, for every table.
\<close>

theorem post_drink_missing_title_is_500:
  "app d \<lparr>route = POST_drinks, bearer = Verified [''post:drinks''],
          data = JObj [(''recipe'', JArr [])]\<rparr> = (d, internal_server_error)
   \<and> status internal_server_error = 500
   \<and> status (snd (app d \<lparr>route = POST_drinks, bearer = Verified [''post:drinks''],
          data = JObj [(''recipe'', JArr [])]\<rparr>)) \<noteq> 422"
  by (simp add: app_def dispatch_def requires_auth_def post_drink_def py_truthy_def
      py_not_in_def internal_server_error_def)

text \<open>
  Claim C2 as stated: the body of a successful DELETE is \<open>{success: true, deleted: id}\<close>.
  The handler writes the id under the key \<open>delete\<close>, as its docstring says; the key
  \<open>deleted\<close> is absent from the body.
\<close>

theorem delete_body_key_counterexample:
  "Drink_query_get \<lparr>rows = [\<lparr>drink_id = 1, title = JStr ''Water'', recipe = ''[]''\<rparr>],
                     next_id = 2, available = True\<rparr> 1
     = Inr (Some \<lparr>drink_id = 1, title = JStr ''Water'', recipe = ''[]''\<rparr>)
   \<and> snd (app \<lparr>rows = [\<lparr>drink_id = 1, title = JStr ''Water'', recipe = ''[]''\<rparr>],
               next_id = 2, available = True\<rparr>
             \<lparr>route = DELETE_drinks 1, bearer = Verified [''delete:drinks''], data = JNull\<rparr>)
       \<noteq> \<lparr>status = 200, body = Json (JObj [(''success'', JBool True), (''deleted'', JInt 1)])\<rparr>
   \<and> body_field (body (snd (app \<lparr>rows = [\<lparr>drink_id = 1, title = JStr ''Water'', recipe = ''[]''\<rparr>],
               next_id = 2, available = True\<rparr>
             \<lparr>route = DELETE_drinks 1, bearer = Verified [''delete:drinks''], data = JNull\<rparr>)))
         ''deleted'' = None"
  by (simp add: app_def dispatch_def requires_auth_def delete_drink_def Drink_query_get_def
      Drink_delete_def jsonify_def)

text \<open>
  Claim C2 as amended: for every id the table holds, a DELETE with the permission removes
  the rows of that id, keeps every other row, and returns 200 with the body
  \<open>{success: true, delete: id}\<close>, the id being that of the removed row.
\<close>

theorem delete_existing_id:
  assumes "Drink_query_get d i = Inr (Some row)" and "''delete:drinks'' \<in> set perms"
  shows "app d \<lparr>route = DELETE_drinks i, bearer = Verified perms, data = x\<rparr>
           = (d\<lparr>rows := filter (\<lambda>r. drink_id r \<noteq> i) (rows d)\<rparr>,
              \<lparr>status = 200,
               body = Json (JObj [(''success'', JBool True), (''delete'', JInt (int i))])\<rparr>)
       \<and> drink_id row = i
       \<and> Drink_query_get (fst (app d \<lparr>route = DELETE_drinks i, bearer = Verified perms, data = x\<rparr>)) i
           = Inr None
       \<and> (\<forall>j. j \<noteq> i \<longrightarrow>
            Drink_query_get (fst (app d \<lparr>route = DELETE_drinks i, bearer = Verified perms, data = x\<rparr>)) j
              = Drink_query_get d j)"
proof -
  have av: "available d" by (rule query_get_available [OF assms(1)])
  have rid: "drink_id row = i" using query_get_find [OF assms(1)] by (rule find_id)
  have run: "app d \<lparr>route = DELETE_drinks i, bearer = Verified perms, data = x\<rparr>
           = (d\<lparr>rows := filter (\<lambda>r. drink_id r \<noteq> i) (rows d)\<rparr>,
              \<lparr>status = 200,
               body = Json (JObj [(''success'', JBool True), (''delete'', JInt (int i))])\<rparr>)"
    using assms av rid
    by (simp add: app_def dispatch_def requires_auth_granted delete_drink_def Drink_delete_def
        jsonify_def)
  have gone: "Drink_query_get (d\<lparr>rows := filter (\<lambda>r. drink_id r \<noteq> i) (rows d)\<rparr>) i = Inr None"
    using av by (simp add: Drink_query_get_def find_filter_same)
  have others: "Drink_query_get (d\<lparr>rows := filter (\<lambda>r. drink_id r \<noteq> i) (rows d)\<rparr>) j
                  = Drink_query_get d j" if "j \<noteq> i" for j
    using that by (simp add: Drink_query_get_def find_filter_other)
  show ?thesis using run rid gone others by simp
qed

theorem delete_existing_id_witness:
  "Drink_query_get \<lparr>rows = [\<lparr>drink_id = 1, title = JStr ''Water'', recipe = ''[]''\<rparr>,
                             \<lparr>drink_id = 2, title = JStr ''Tea'', recipe = ''[]''\<rparr>],
                     next_id = 3, available = True\<rparr> 1
     = Inr (Some \<lparr>drink_id = 1, title = JStr ''Water'', recipe = ''[]''\<rparr>)
   \<and> ''delete:drinks'' \<in> set [''delete:drinks'']
   \<and> app \<lparr>rows = [\<lparr>drink_id = 1, title = JStr ''Water'', recipe = ''[]''\<rparr>,
                   \<lparr>drink_id = 2, title = JStr ''Tea'', recipe = ''[]''\<rparr>],
           next_id = 3, available = True\<rparr>
         \<lparr>route = DELETE_drinks 1, bearer = Verified [''delete:drinks''], data = JNull\<rparr>
       = (\<lparr>rows = [\<lparr>drink_id = 2, title = JStr ''Tea'', recipe = ''[]''\<rparr>],
            next_id = 3, available = True\<rparr>,
          \<lparr>status = 200,
           body = Json (JObj [(''success'', JBool True), (''delete'', JInt 1)])\<rparr>)"
proof -
  have h: "Drink_query_get \<lparr>rows = [\<lparr>drink_id = 1, title = JStr ''Water'', recipe = ''[]''\<rparr>,
                             \<lparr>drink_id = 2, title = JStr ''Tea'', recipe = ''[]''\<rparr>],
                     next_id = 3, available = True\<rparr> 1
     = Inr (Some \<lparr>drink_id = 1, title = JStr ''Water'', recipe = ''[]''\<rparr>)"
    by (simp add: Drink_query_get_def)
  have p: "''delete:drinks'' \<in> set [''delete:drinks'']" by simp
  show ?thesis
    using h delete_existing_id [OF h p, of JNull] by simp
qed

text \<open>
  Claim C3. For every existing item, a PATCH whose body is an object applies exactly the
  fields the body holds: the new title is the body's title if it has one and the old title
  otherwise, the new recipe text is the serialized recipe of the body if it has one and
  the old text otherwise. In particular a body with a title and no recipe changes the title
  and leaves the stored recipe text as it was. No other row changes.
\<close>

theorem patch_applies_only_present_fields:
  assumes "Drink_query_get d i = Inr (Some row)" and "''patch:drinks'' \<in> set perms"
  shows "Drink_query_get
           (fst (app d \<lparr>route = PATCH_drinks i, bearer = Verified perms, data = JObj kvs\<rparr>)) i
           = Inr (Some \<lparr>drink_id = i,
                        title = (case map_of kvs ''title'' of None \<Rightarrow> title row | Some t \<Rightarrow> t),
                        recipe = (case map_of kvs ''recipe'' of None \<Rightarrow> recipe row
                                  | Some r \<Rightarrow> json_dumps r)\<rparr>)
       \<and> (\<forall>t. map_of kvs ''title'' = Some t \<and> map_of kvs ''recipe'' = None \<longrightarrow>
            Drink_query_get
              (fst (app d \<lparr>route = PATCH_drinks i, bearer = Verified perms, data = JObj kvs\<rparr>)) i
              = Inr (Some (row\<lparr>title := t\<rparr>)))
       \<and> (\<forall>j. j \<noteq> i \<longrightarrow>
            Drink_query_get
              (fst (app d \<lparr>route = PATCH_drinks i, bearer = Verified perms, data = JObj kvs\<rparr>)) j
              = Drink_query_get d j)"
proof -
  let ?row2 = "\<lparr>drink_id = drink_id row,
                title = (case map_of kvs ''title'' of None \<Rightarrow> title row | Some t \<Rightarrow> t),
                recipe = (case map_of kvs ''recipe'' of None \<Rightarrow> recipe row
                          | Some r \<Rightarrow> json_dumps r)\<rparr>"
  let ?d' = "fst (app d \<lparr>route = PATCH_drinks i, bearer = Verified perms, data = JObj kvs\<rparr>)"
  have av: "available d" by (rule query_get_available [OF assms(1)])
  have f: "find (\<lambda>r. drink_id r = i) (rows d) = Some row" by (rule query_get_find [OF assms(1)])
  have rid: "drink_id row = i" using f by (rule find_id)
  have d': "?d' = d\<lparr>rows := map (\<lambda>r. if drink_id r = i then ?row2 else r) (rows d)\<rparr>"
    using update_drink_obj [OF assms(1), of perms kvs] assms(2)
    by (simp add: app_def dispatch_def requires_auth_granted)
  have same: "Drink_query_get ?d' i = Inr (Some ?row2)"
    unfolding d' using av find_map_same [OF f, of ?row2] rid
    by (simp add: Drink_query_get_def)
  have other: "Drink_query_get ?d' j = Drink_query_get d j" if "j \<noteq> i" for j
    unfolding d' using find_map_other [of ?row2 i j "rows d"] rid that
    by (simp add: Drink_query_get_def)
  have only_title: "Drink_query_get ?d' i = Inr (Some (row\<lparr>title := t\<rparr>))"
    if "map_of kvs ''title'' = Some t \<and> map_of kvs ''recipe'' = None" for t
    using same that by simp
  show ?thesis using same rid other only_title by simp
qed

theorem patch_applies_only_present_fields_witness:
  "Drink_query_get \<lparr>rows = [\<lparr>drink_id = 1, title = JStr ''Water'', recipe = ''[]''\<rparr>],
                     next_id = 2, available = True\<rparr> 1
     = Inr (Some \<lparr>drink_id = 1, title = JStr ''Water'', recipe = ''[]''\<rparr>)
   \<and> ''patch:drinks'' \<in> set [''patch:drinks'']
   \<and> map_of [(''title'', JStr ''Tea'')] ''title'' = Some (JStr ''Tea'')
   \<and> map_of [(''title'', JStr ''Tea'')] ''recipe'' = None
   \<and> Drink_query_get
        (fst (app \<lparr>rows = [\<lparr>drink_id = 1, title = JStr ''Water'', recipe = ''[]''\<rparr>],
                   next_id = 2, available = True\<rparr>
                 \<lparr>route = PATCH_drinks 1, bearer = Verified [''patch:drinks''],
                  data = JObj [(''title'', JStr ''Tea'')]\<rparr>)) 1
       = Inr (Some \<lparr>drink_id = 1, title = JStr ''Tea'', recipe = ''[]''\<rparr>)"
proof -
  have h: "Drink_query_get \<lparr>rows = [\<lparr>drink_id = 1, title = JStr ''Water'', recipe = ''[]''\<rparr>],
                     next_id = 2, available = True\<rparr> 1
     = Inr (Some \<lparr>drink_id = 1, title = JStr ''Water'', recipe = ''[]''\<rparr>)"
    by (simp add: Drink_query_get_def)
  have p: "''patch:drinks'' \<in> set [''patch:drinks'']" by simp
  show ?thesis
    using h patch_applies_only_present_fields [OF h p, of "[(''title'', JStr ''Tea'')]"] by simp
qed

text \<open>
  Claim C4. On every gated route, a request whose verified token lacks the required
  permission is answered with 403 and not with 401, a request without a bearer token is
  answered with 401, and whenever the verifier refuses a credential the status of the
  response is the status code that the \<open>AuthError\<close> carries.
\<close>

theorem gated_route_auth_status:
  assumes "required_permission rt = Some p"
  shows "status (snd (app d \<lparr>route = rt, bearer = NoBearer, data = x\<rparr>)) = 401
       \<and> (p \<notin> set perms \<longrightarrow>
            status (snd (app d \<lparr>route = rt, bearer = Verified perms, data = x\<rparr>)) = 403
          \<and> status (snd (app d \<lparr>route = rt, bearer = Verified perms, data = x\<rparr>)) \<noteq> 401)
       \<and> (\<forall>b e. verify b p = Inl e \<longrightarrow>
            status (snd (app d \<lparr>route = rt, bearer = b, data = x\<rparr>)) = status_code e
          \<and> fst (app d \<lparr>route = rt, bearer = b, data = x\<rparr>) = d)"
proof -
  have none: "verify NoBearer p = Inl (auth_failure MissingToken)" by simp
  have a: "status (snd (app d \<lparr>route = rt, bearer = NoBearer, data = x\<rparr>)) = 401"
    using app_refused [OF assms none, of d x] by (simp add: status_code_auth_failure)
  have b: "status (snd (app d \<lparr>route = rt, bearer = Verified perms, data = x\<rparr>)) = 403
         \<and> status (snd (app d \<lparr>route = rt, bearer = Verified perms, data = x\<rparr>)) \<noteq> 401"
    if "p \<notin> set perms"
  proof -
    have lack: "verify (Verified perms) p = Inl (auth_failure InsufficientPermission)"
      using that by simp
    show ?thesis
      using app_refused [OF assms lack, of d x] by (simp add: status_code_auth_failure)
  qed
  have c: "status (snd (app d \<lparr>route = rt, bearer = b, data = x\<rparr>)) = status_code e
         \<and> fst (app d \<lparr>route = rt, bearer = b, data = x\<rparr>) = d"
    if "verify b p = Inl e" for b e
    using app_refused [OF assms that, of d x] by simp
  show ?thesis using a b c by blast
qed

theorem gated_route_auth_status_witness:
  "required_permission (PATCH_drinks 1) = Some ''patch:drinks''
   \<and> ''patch:drinks'' \<notin> set [''get:drinks-detail'']
   \<and> status (snd (app db_drop_and_create_all
        \<lparr>route = PATCH_drinks 1, bearer = NoBearer, data = JObj []\<rparr>)) = 401
   \<and> status (snd (app db_drop_and_create_all
        \<lparr>route = PATCH_drinks 1, bearer = Verified [''get:drinks-detail''], data = JObj []\<rparr>)) = 403"
proof -
  have h: "required_permission (PATCH_drinks 1) = Some ''patch:drinks''" by simp
  have l: "''patch:drinks'' \<notin> set [''get:drinks-detail'']" by simp
  show ?thesis
    using h l gated_route_auth_status [OF h, of db_drop_and_create_all "JObj []" "[''get:drinks-detail'']"]
    by blast
qed

text \<open>
  Claim C5. A DELETE of an id that the table does not hold is answered with 404 and never
  with 200, whatever the credential, and leaves the table as it was.
\<close>

theorem delete_unknown_id_is_404:
  assumes "Drink_query_get d i = Inr None"
  shows "(''delete:drinks'' \<in> set perms \<longrightarrow>
           app d \<lparr>route = DELETE_drinks i, bearer = Verified perms, data = x\<rparr> = (d, not_found))
       \<and> status not_found = 404
       \<and> status (snd (app d \<lparr>route = DELETE_drinks i, bearer = b, data = x\<rparr>)) \<noteq> 200
       \<and> fst (app d \<lparr>route = DELETE_drinks i, bearer = b, data = x\<rparr>) = d"
proof -
  have granted: "app d \<lparr>route = DELETE_drinks i, bearer = Verified ps, data = x\<rparr> = (d, not_found)"
    if "''delete:drinks'' \<in> set ps" for ps
    using assms that
    by (simp add: app_def dispatch_def requires_auth_granted delete_drink_def errorhandler_def)
  have st: "status not_found = 404" by (simp add: not_found_def)
  have any: "status (snd (app d \<lparr>route = DELETE_drinks i, bearer = b, data = x\<rparr>)) \<noteq> 200
           \<and> fst (app d \<lparr>route = DELETE_drinks i, bearer = b, data = x\<rparr>) = d"
  proof (cases "verify b ''delete:drinks''")
    case (Inl e)
    obtain k where "e = auth_failure k" using verify_refused_kind [OF Inl] by blast
    then have "status_code e = 401 \<or> status_code e = 403"
      using kind_status_cases [of k] by (simp add: status_code_auth_failure)
    then have "status_code e \<noteq> 200" by auto
    then show ?thesis
      using app_refused [of "DELETE_drinks i" "''delete:drinks''" b e d x] Inl by simp
  next
    case (Inr ps)
    then obtain qs where b: "b = Verified qs" and q: "''delete:drinks'' \<in> set qs"
      by (cases b) (auto split: if_splits)
    show ?thesis using granted [OF q] b st by simp
  qed
  show ?thesis using granted st any by blast
qed


theorem delete_unknown_id_is_404_witness:
  "Drink_query_get \<lparr>rows = [\<lparr>drink_id = 1, title = JStr ''Water'', recipe = ''[]''\<rparr>],
                     next_id = 2, available = True\<rparr> 7 = Inr None
   \<and> app \<lparr>rows = [\<lparr>drink_id = 1, title = JStr ''Water'', recipe = ''[]''\<rparr>],
           next_id = 2, available = True\<rparr>
         \<lparr>route = DELETE_drinks 7, bearer = Verified [''delete:drinks''], data = JNull\<rparr>
       = (\<lparr>rows = [\<lparr>drink_id = 1, title = JStr ''Water'', recipe = ''[]''\<rparr>],
            next_id = 2, available = True\<rparr>, not_found)
   \<and> status (snd (app \<lparr>rows = [\<lparr>drink_id = 1, title = JStr ''Water'', recipe = ''[]''\<rparr>],
           next_id = 2, available = True\<rparr>
         \<lparr>route = DELETE_drinks 7, bearer = NoBearer, data = JNull\<rparr>)) \<noteq> 200"
proof -
  have h: "Drink_query_get \<lparr>rows = [\<lparr>drink_id = 1, title = JStr ''Water'', recipe = ''[]''\<rparr>],
                     next_id = 2, available = True\<rparr> 7 = Inr None"
    by (simp add: Drink_query_get_def)
  show ?thesis
    using h delete_unknown_id_is_404 [OF h, of "[''delete:drinks'']" JNull NoBearer]
      delete_unknown_id_is_404 [OF h, of "[''delete:drinks'']" JNull "Verified [''delete:drinks'']"]
    by simp
qed

text \<open>
  Claim C6. Whenever the table can be read, the query behind \<open>GET /drinks\<close> and
  \<open>GET /drinks-detail\<close> returns all its rows, each once, in ascending order of id, and
  the two responses list the projections of the rows in that order.
\<close>

theorem list_ordered_by_id:
  assumes "available d"
  shows "\<exists>ds. Drink_query_all d = Inr ds
          \<and> sorted (map drink_id ds)
          \<and> mset ds = mset (rows d)
          \<and> (\<forall>js. comprehension short ds = Inr js \<longrightarrow>
                app d \<lparr>route = GET_drinks, bearer = b, data = x\<rparr>
                  = (d, \<lparr>status = 200,
                         body = Json (JObj [(''success'', JBool True), (''drinks'', JArr js)])\<rparr>)
              \<and> list_all2 (\<lambda>row j. short row = Inr j) ds js
              \<and> map (\<lambda>j. json_get j ''id'') js = map (\<lambda>row. Some (JInt (int (drink_id row)))) ds)
          \<and> (\<forall>js. ''get:drinks-detail'' \<in> set perms \<longrightarrow> comprehension long ds = Inr js \<longrightarrow>
                app d \<lparr>route = GET_drinks_detail, bearer = Verified perms, data = x\<rparr>
                  = (d, \<lparr>status = 200,
                         body = Json (JObj [(''success'', JBool True), (''drinks'', JArr js)])\<rparr>)
              \<and> list_all2 (\<lambda>row j. long row = Inr j) ds js
              \<and> map (\<lambda>j. json_get j ''id'') js = map (\<lambda>row. Some (JInt (int (drink_id row)))) ds)"
proof -
  let ?ds = "sort_key drink_id (rows d)"
  have q: "Drink_query_all d = Inr ?ds" using assms by (simp add: Drink_query_all_def)
  have s: "sorted (map drink_id ?ds)" by (rule sorted_sort_key)
  have m: "mset ?ds = mset (rows d)" by simp
  have g: "app d \<lparr>route = GET_drinks, bearer = b, data = x\<rparr>
             = (d, \<lparr>status = 200,
                    body = Json (JObj [(''success'', JBool True), (''drinks'', JArr js)])\<rparr>)
           \<and> list_all2 (\<lambda>row j. short row = Inr j) ?ds js
           \<and> map (\<lambda>j. json_get j ''id'') js = map (\<lambda>row. Some (JInt (int (drink_id row)))) ?ds"
    if c: "comprehension short ?ds = Inr js" for js
    using q c comprehension_pointwise [OF c] comprehension_map [OF c short_id]
    by (simp add: app_def dispatch_def get_drinks_def jsonify_def)
  have l: "app d \<lparr>route = GET_drinks_detail, bearer = Verified perms, data = x\<rparr>
             = (d, \<lparr>status = 200,
                    body = Json (JObj [(''success'', JBool True), (''drinks'', JArr js)])\<rparr>)
           \<and> list_all2 (\<lambda>row j. long row = Inr j) ?ds js
           \<and> map (\<lambda>j. json_get j ''id'') js = map (\<lambda>row. Some (JInt (int (drink_id row)))) ?ds"
    if p: "''get:drinks-detail'' \<in> set perms" and c: "comprehension long ?ds = Inr js" for js
    using q c p comprehension_pointwise [OF c] comprehension_map [OF c long_id]
    by (simp add: app_def dispatch_def requires_auth_granted get_drinks_detail_def jsonify_def)
  show ?thesis using q s m g l by blast
qed


theorem list_ordered_by_id_witness:
  "available \<lparr>rows = [\<lparr>drink_id = 2, title = JStr ''Tea'', recipe = ''[]''\<rparr>,
                        \<lparr>drink_id = 1, title = JStr ''Water'', recipe = ''[]''\<rparr>],
               next_id = 3, available = True\<rparr>
   \<and> app \<lparr>rows = [\<lparr>drink_id = 2, title = JStr ''Tea'', recipe = ''[]''\<rparr>,
                   \<lparr>drink_id = 1, title = JStr ''Water'', recipe = ''[]''\<rparr>],
           next_id = 3, available = True\<rparr>
         \<lparr>route = GET_drinks, bearer = NoBearer, data = JNull\<rparr>
       = (\<lparr>rows = [\<lparr>drink_id = 2, title = JStr ''Tea'', recipe = ''[]''\<rparr>,
                   \<lparr>drink_id = 1, title = JStr ''Water'', recipe = ''[]''\<rparr>],
            next_id = 3, available = True\<rparr>,
          \<lparr>status = 200,
           body = Json (JObj [(''success'', JBool True),
                   (''drinks'', JArr [JObj [(''id'', JInt 1), (''title'', JStr ''Water''),
                                            (''recipe'', JArr [])],
                                      JObj [(''id'', JInt 2), (''title'', JStr ''Tea''),
                                            (''recipe'', JArr [])]])])\<rparr>)"
proof -
  let ?d = "\<lparr>rows = [\<lparr>drink_id = 2, title = JStr ''Tea'', recipe = ''[]''\<rparr>,
                        \<lparr>drink_id = 1, title = JStr ''Water'', recipe = ''[]''\<rparr>],
               next_id = 3, available = True\<rparr>"
  have a: "available ?d" by simp
  from list_ordered_by_id [OF a, of NoBearer JNull "[]"]
  obtain ds where q: "Drink_query_all ?d = Inr ds"
    and g: "\<forall>js. comprehension short ds = Inr js \<longrightarrow>
              app ?d \<lparr>route = GET_drinks, bearer = NoBearer, data = JNull\<rparr>
                = (?d, \<lparr>status = 200,
                        body = Json (JObj [(''success'', JBool True), (''drinks'', JArr js)])\<rparr>)"
    by blast
  have ds: "ds = [\<lparr>drink_id = 1, title = JStr ''Water'', recipe = ''[]''\<rparr>,
                  \<lparr>drink_id = 2, title = JStr ''Tea'', recipe = ''[]''\<rparr>]"
    using q by (simp add: Drink_query_all_def)
  have c: "comprehension short ds =
             Inr [JObj [(''id'', JInt 1), (''title'', JStr ''Water''), (''recipe'', JArr [])],
                  JObj [(''id'', JInt 2), (''title'', JStr ''Tea''), (''recipe'', JArr [])]]"
    unfolding ds by (simp add: short_def loads_empty_array)
  show ?thesis using a g c by blast
qed

text \<open>
  Claim C7. On the two read endpoints a failure of the query against the table is caught
  in the handler and answered with the 404 envelope; it neither escapes as an exception
  nor yields a success response.
\<close>

theorem read_failure_is_404:
  assumes "Drink_query_all d = Inl e"
  shows "app d \<lparr>route = GET_drinks, bearer = b, data = x\<rparr> = (d, not_found)
       \<and> (''get:drinks-detail'' \<in> set perms \<longrightarrow>
            app d \<lparr>route = GET_drinks_detail, bearer = Verified perms, data = x\<rparr> = (d, not_found))
       \<and> status not_found = 404
       \<and> body_field (body not_found) ''success'' = Some (JBool False)"
  using assms
  by (simp add: app_def dispatch_def requires_auth_granted get_drinks_def get_drinks_detail_def
      errorhandler_def not_found_def jsonify_def)

theorem read_failure_is_404_witness:
  "Drink_query_all \<lparr>rows = [], next_id = 1, available = False\<rparr> = Inl (StoreError Unavailable)
   \<and> app \<lparr>rows = [], next_id = 1, available = False\<rparr>
         \<lparr>route = GET_drinks, bearer = NoBearer, data = JNull\<rparr>
       = (\<lparr>rows = [], next_id = 1, available = False\<rparr>, not_found)
   \<and> app \<lparr>rows = [], next_id = 1, available = False\<rparr>
         \<lparr>route = GET_drinks_detail, bearer = Verified [''get:drinks-detail''], data = JNull\<rparr>
       = (\<lparr>rows = [], next_id = 1, available = False\<rparr>, not_found)"
proof -
  have h: "Drink_query_all \<lparr>rows = [], next_id = 1, available = False\<rparr>
             = Inl (StoreError Unavailable)"
    by (simp add: Drink_query_all_def)
  show ?thesis
    using h read_failure_is_404 [OF h, of NoBearer JNull "[''get:drinks-detail'']"] by simp
qed

text \<open>
  Claim C8. Each registered error handler (400, 401, 404, 405, 422, 500) answers with the
  object \<open>{success: false, error: code, message: text}\<close> under the status \<open>code\<close>; an
  \<open>AuthError\<close> is answered with the same object under the status code it carries; and every
  response of the application carries a \<open>success\<close> boolean.
\<close>

theorem error_envelope:
  "(\<forall>code \<in> {400, 401, 404, 405, 422, 500}.
      \<exists>m. errorhandler code =
        Some \<lparr>status = code,
              body = Json (JObj [(''success'', JBool False), (''error'', JInt (int code)),
                                 (''message'', JStr m)])\<rparr>)
   \<and> (\<forall>e m. map_of (error e) ''description'' = Some m \<longrightarrow>
        render (Raise (AuthFailure e)) =
          \<lparr>status = status_code e,
           body = Json (JObj [(''success'', JBool False), (''error'', JInt (int (status_code e))),
                              (''message'', m)])\<rparr>)
   \<and> (\<forall>cred p e. verify cred p = Inl e \<longrightarrow>
        (\<exists>m. render (Raise (AuthFailure e)) =
          \<lparr>status = status_code e,
           body = Json (JObj [(''success'', JBool False), (''error'', JInt (int (status_code e))),
                              (''message'', JStr m)])\<rparr>))
   \<and> (\<forall>d req. has_success (snd (app d req)))"
proof -
  have a: "\<forall>code \<in> {400, 401, 404, 405, 422, 500}.
      \<exists>m. errorhandler code =
        Some \<lparr>status = code,
              body = Json (JObj [(''success'', JBool False), (''error'', JInt (int code)),
                                 (''message'', JStr m)])\<rparr>"
    by (simp add: errorhandler_def bad_request_def unauthorized_def not_found_def
        not_found_405_def uproccessable_def internal_server_error_def jsonify_def)
  have b: "render (Raise (AuthFailure e)) =
          \<lparr>status = status_code e,
           body = Json (JObj [(''success'', JBool False), (''error'', JInt (int (status_code e))),
                              (''message'', m)])\<rparr>"
    if "map_of (error e) ''description'' = Some m" for e m
    using that by (simp add: auth_error_def jsonify_def)
  have c: "\<exists>m. render (Raise (AuthFailure e)) =
          \<lparr>status = status_code e,
           body = Json (JObj [(''success'', JBool False), (''error'', JInt (int (status_code e))),
                              (''message'', JStr m)])\<rparr>"
    if h: "verify cred p = Inl e" for cred p e
  proof -
    obtain k where "e = auth_failure k" using verify_refused_kind [OF h] by blast
    then show ?thesis by (simp add: auth_error_auth_failure status_code_auth_failure)
  qed
  show ?thesis using a b c has_success_app by blast
qed

theorem error_envelope_witness:
  "(422::nat) \<in> {400, 401, 404, 405, 422, 500}
   \<and> errorhandler 422 =
        Some \<lparr>status = 422,
              body = Json (JObj [(''success'', JBool False), (''error'', JInt 422),
                                 (''message'', JStr ''Unproccessable'')])\<rparr>
   \<and> verify NoBearer ''post:drinks'' = Inl (auth_failure MissingToken)
   \<and> render (Raise (AuthFailure (auth_failure MissingToken))) =
        \<lparr>status = 401,
         body = Json (JObj [(''success'', JBool False), (''error'', JInt 401),
                            (''message'', JStr ''missing token'')])\<rparr>
   \<and> has_success (snd (app db_drop_and_create_all
          \<lparr>route = POST_drinks, bearer = NoBearer, data = JNull\<rparr>))"
proof -
  have m: "(422::nat) \<in> {400, 401, 404, 405, 422, 500}" by simp
  have v: "verify NoBearer ''post:drinks'' = Inl (auth_failure MissingToken)" by simp
  have d: "map_of (error (auth_failure MissingToken)) ''description'' = Some (JStr ''missing token'')"
    by (simp add: auth_failure_def)
  from error_envelope have
    a: "\<forall>code \<in> {400, 401, 404, 405, 422, 500}.
      \<exists>m. errorhandler code =
        Some \<lparr>status = code,
              body = Json (JObj [(''success'', JBool False), (''error'', JInt (int code)),
                                 (''message'', JStr m)])\<rparr>"
    and b: "\<forall>e m. map_of (error e) ''description'' = Some m \<longrightarrow>
        render (Raise (AuthFailure e)) =
          \<lparr>status = status_code e,
           body = Json (JObj [(''success'', JBool False), (''error'', JInt (int (status_code e))),
                              (''message'', m)])\<rparr>"
    and s: "\<forall>d req. has_success (snd (app d req))"
    by blast+
  from a m obtain msg where
    "errorhandler 422 = Some \<lparr>status = 422,
              body = Json (JObj [(''success'', JBool False), (''error'', JInt (int 422)),
                                 (''message'', JStr msg)])\<rparr>"
    by blast
  then have e422: "errorhandler 422 =
        Some \<lparr>status = 422,
              body = Json (JObj [(''success'', JBool False), (''error'', JInt 422),
                                 (''message'', JStr ''Unproccessable'')])\<rparr>"
    by (simp add: errorhandler_def uproccessable_def jsonify_def)
  have r: "render (Raise (AuthFailure (auth_failure MissingToken))) =
        \<lparr>status = 401,
         body = Json (JObj [(''success'', JBool False), (''error'', JInt 401),
                            (''message'', JStr ''missing token'')])\<rparr>"
    using b d by (simp add: status_code_auth_failure)
  show ?thesis using m e422 v r s by blast
qed

text \<open>
  Claim C9. For every recipe structure, a list of ingredient entries each with a name, a
  color and a quantity, the text that the write path stores (\<open>json.dumps\<close> in POST and in
  PATCH) is read back by the read path (\<open>json.loads\<close> in the long form) as the same
  structure, entries in order and fields unchanged; the responses of POST and PATCH show it.
\<close>

theorem recipe_roundtrip:
  assumes "is_recipe r"
  shows "json_loads (json_dumps r) = Some r
       \<and> (available d \<and> ''post:drinks'' \<in> set perms \<and> map_of kvs ''title'' = Some t
            \<and> t \<noteq> JNull \<and> t \<noteq> JStr [] \<and> map_of kvs ''recipe'' = Some r \<longrightarrow>
            app d \<lparr>route = POST_drinks, bearer = Verified perms, data = JObj kvs\<rparr>
              = (d\<lparr>rows := rows d @ [\<lparr>drink_id = next_id d, title = t, recipe = json_dumps r\<rparr>],
                   next_id := Suc (next_id d)\<rparr>,
                 \<lparr>status = 200,
                  body = Json (JObj [(''success'', JBool True),
                           (''drinks'', JArr [JObj [(''id'', JInt (int (next_id d))), (''title'', t),
                                                    (''recipe'', r)]])])\<rparr>)
          \<and> long \<lparr>drink_id = next_id d, title = t, recipe = json_dumps r\<rparr>
              = Inr (JObj [(''id'', JInt (int (next_id d))), (''title'', t), (''recipe'', r)]))
       \<and> (Drink_query_get d i = Inr (Some row) \<and> ''patch:drinks'' \<in> set perms
            \<and> map_of kvs ''recipe'' = Some r \<longrightarrow>
            app d \<lparr>route = PATCH_drinks i, bearer = Verified perms, data = JObj kvs\<rparr>
              = (d\<lparr>rows := map (\<lambda>x. if drink_id x = i
                                 then \<lparr>drink_id = i,
                                       title = (case map_of kvs ''title'' of None \<Rightarrow> title row
                                                | Some t' \<Rightarrow> t'),
                                       recipe = json_dumps r\<rparr>
                                 else x) (rows d)\<rparr>,
                 \<lparr>status = 200,
                  body = Json (JObj [(''success'', JBool True),
                           (''drinks'', JArr [JObj [(''id'', JInt (int i)),
                              (''title'', (case map_of kvs ''title'' of None \<Rightarrow> title row
                                           | Some t' \<Rightarrow> t')),
                              (''recipe'', r)]])])\<rparr>)
          \<and> long \<lparr>drink_id = i,
                   title = (case map_of kvs ''title'' of None \<Rightarrow> title row | Some t' \<Rightarrow> t'),
                   recipe = json_dumps r\<rparr>
              = Inr (JObj [(''id'', JInt (int i)),
                           (''title'', (case map_of kvs ''title'' of None \<Rightarrow> title row
                                        | Some t' \<Rightarrow> t')),
                           (''recipe'', r)]))"
proof -
  have wf: "wf_json r" by (rule is_recipe_wf [OF assms])
  have rt: "json_loads (json_dumps r) = Some r" by (rule json_roundtrip [OF wf])
  have post: "app d \<lparr>route = POST_drinks, bearer = Verified perms, data = JObj kvs\<rparr>
              = (d\<lparr>rows := rows d @ [\<lparr>drink_id = next_id d, title = t, recipe = json_dumps r\<rparr>],
                   next_id := Suc (next_id d)\<rparr>,
                 \<lparr>status = 200,
                  body = Json (JObj [(''success'', JBool True),
                           (''drinks'', JArr [JObj [(''id'', JInt (int (next_id d))), (''title'', t),
                                                    (''recipe'', r)]])])\<rparr>)"
    if "available d" "''post:drinks'' \<in> set perms" "map_of kvs ''title'' = Some t"
       "t \<noteq> JNull" "t \<noteq> JStr []" "map_of kvs ''recipe'' = Some r"
    using post_drink_obj [OF that(1) that(3) that(4) that(5) that(6) wf, of perms] that(2)
    by (simp add: app_def dispatch_def requires_auth_granted jsonify_def)
  have patch: "app d \<lparr>route = PATCH_drinks i, bearer = Verified perms, data = JObj kvs\<rparr>
              = (d\<lparr>rows := map (\<lambda>x. if drink_id x = i
                                 then \<lparr>drink_id = i,
                                       title = (case map_of kvs ''title'' of None \<Rightarrow> title row
                                                | Some t' \<Rightarrow> t'),
                                       recipe = json_dumps r\<rparr>
                                 else x) (rows d)\<rparr>,
                 \<lparr>status = 200,
                  body = Json (JObj [(''success'', JBool True),
                           (''drinks'', JArr [JObj [(''id'', JInt (int i)),
                              (''title'', (case map_of kvs ''title'' of None \<Rightarrow> title row
                                           | Some t' \<Rightarrow> t')),
                              (''recipe'', r)]])])\<rparr>)"
    if g: "Drink_query_get d i = Inr (Some row)" and p: "''patch:drinks'' \<in> set perms"
      and k: "map_of kvs ''recipe'' = Some r"
  proof -
    have rid: "drink_id row = i" using query_get_find [OF g] by (rule find_id)
    show ?thesis
      using update_drink_obj [OF g, of perms kvs] p k rid
        long_dumps [OF wf, of i "case map_of kvs ''title'' of None \<Rightarrow> title row | Some t' \<Rightarrow> t'"]
      by (simp add: app_def dispatch_def requires_auth_granted jsonify_def)
  qed
  show ?thesis using rt post patch long_dumps [OF wf] by simp
qed

theorem recipe_roundtrip_witness:
  "is_recipe (JArr [JObj [(''name'', JStr ''Water''), (''color'', JStr ''blue''), (''parts'', JInt 1)]])
   \<and> json_loads (json_dumps
        (JArr [JObj [(''name'', JStr ''Water''), (''color'', JStr ''blue''), (''parts'', JInt 1)]]))
       = Some (JArr [JObj [(''name'', JStr ''Water''), (''color'', JStr ''blue''), (''parts'', JInt 1)]])
   \<and> available db_drop_and_create_all
   \<and> ''post:drinks'' \<in> set [''post:drinks'']
   \<and> app db_drop_and_create_all
         \<lparr>route = POST_drinks, bearer = Verified [''post:drinks''],
          data = JObj [(''title'', JStr ''Water''),
                       (''recipe'', JArr [JObj [(''name'', JStr ''Water''), (''color'', JStr ''blue''),
                                                (''parts'', JInt 1)]])]\<rparr>
       = (db_drop_and_create_all
            \<lparr>rows := rows db_drop_and_create_all @
               [\<lparr>drink_id = next_id db_drop_and_create_all, title = JStr ''Water'',
                 recipe = json_dumps (JArr [JObj [(''name'', JStr ''Water''), (''color'', JStr ''blue''),
                                                  (''parts'', JInt 1)]])\<rparr>],
             next_id := Suc (next_id db_drop_and_create_all)\<rparr>,
          \<lparr>status = 200,
           body = Json (JObj [(''success'', JBool True),
                    (''drinks'', JArr [JObj [(''id'', JInt (int (next_id db_drop_and_create_all))),
                       (''title'', JStr ''Water''),
                       (''recipe'', JArr [JObj [(''name'', JStr ''Water''), (''color'', JStr ''blue''),
                                                (''parts'', JInt 1)]])]])])\<rparr>)"
proof -
  let ?r = "JArr [JObj [(''name'', JStr ''Water''), (''color'', JStr ''blue''), (''parts'', JInt 1)]]"
  let ?kvs = "[(''title'', JStr ''Water''), (''recipe'', ?r)]"
  have h: "is_recipe ?r" by simp
  have a: "available db_drop_and_create_all" by (simp add: db_drop_and_create_all_def)
  have p: "''post:drinks'' \<in> set [''post:drinks'']" by simp
  have k: "map_of ?kvs ''title'' = Some (JStr ''Water'')" "JStr ''Water'' \<noteq> JNull"
    "JStr ''Water'' \<noteq> JStr []" "map_of ?kvs ''recipe'' = Some ?r"
    by simp_all
  show ?thesis
    using h a p k
      recipe_roundtrip [OF h, of db_drop_and_create_all "[''post:drinks'']" ?kvs "JStr ''Water''"]
    by blast
qed

text \<open>
  Claim C10. For every existing item whose stored recipe can be read, a PATCH with the
  empty object as body is accepted: the answer is 200 with the item in long form, every
  lookup in the table gives what it gave before, and a table with distinct ids is left
  exactly as it was.
\<close>

theorem patch_empty_body_is_noop:
  assumes "Drink_query_get d i = Inr (Some row)" and "''patch:drinks'' \<in> set perms"
    and "json_loads (recipe row) = Some r"
  shows "snd (app d \<lparr>route = PATCH_drinks i, bearer = Verified perms, data = JObj []\<rparr>)
           = \<lparr>status = 200,
              body = Json (JObj [(''success'', JBool True),
                      (''drinks'', JArr [JObj [(''id'', JInt (int i)), (''title'', title row),
                                               (''recipe'', r)]])])\<rparr>
       \<and> (\<forall>j. Drink_query_get
                 (fst (app d \<lparr>route = PATCH_drinks i, bearer = Verified perms, data = JObj []\<rparr>)) j
               = Drink_query_get d j)
       \<and> (distinct (map drink_id (rows d)) \<longrightarrow>
            fst (app d \<lparr>route = PATCH_drinks i, bearer = Verified perms, data = JObj []\<rparr>) = d)"
proof -
  let ?req = "\<lparr>route = PATCH_drinks i, bearer = Verified perms, data = JObj []\<rparr>"
  have av: "available d" by (rule query_get_available [OF assms(1)])
  have f: "find (\<lambda>r. drink_id r = i) (rows d) = Some row" by (rule query_get_find [OF assms(1)])
  have rid: "drink_id row = i" using f by (rule find_id)
  have run: "app d ?req =
      (d\<lparr>rows := map (\<lambda>r. if drink_id r = i then row else r) (rows d)\<rparr>,
       \<lparr>status = 200,
        body = Json (JObj [(''success'', JBool True),
                (''drinks'', JArr [JObj [(''id'', JInt (int i)), (''title'', title row),
                                         (''recipe'', r)]])])\<rparr>)"
    using update_drink_obj [OF assms(1), of perms "[]"] assms(2,3) rid
    by (simp add: app_def dispatch_def requires_auth_granted long_def jsonify_def)
  have look: "Drink_query_get (fst (app d ?req)) j = Drink_query_get d j" for j
  proof (cases "j = i")
    case True
    then show ?thesis
      unfolding run using av f find_map_same [OF f rid] by (simp add: Drink_query_get_def)
  next
    case False
    then show ?thesis
      unfolding run using find_map_other [OF rid False, of "rows d"]
      by (simp add: Drink_query_get_def)
  qed
  have whole: "fst (app d ?req) = d" if "distinct (map drink_id (rows d))"
    unfolding run using map_update_same [OF f that] by simp
  show ?thesis using run look whole by simp
qed

theorem patch_empty_body_is_noop_witness:
  "Drink_query_get \<lparr>rows = [\<lparr>drink_id = 1, title = JStr ''Water'', recipe = ''[]''\<rparr>],
                     next_id = 2, available = True\<rparr> 1
     = Inr (Some \<lparr>drink_id = 1, title = JStr ''Water'', recipe = ''[]''\<rparr>)
   \<and> ''patch:drinks'' \<in> set [''patch:drinks'']
   \<and> json_loads (recipe \<lparr>drink_id = 1, title = JStr ''Water'', recipe = ''[]''\<rparr>) = Some (JArr [])
   \<and> distinct (map drink_id [\<lparr>drink_id = 1, title = JStr ''Water'', recipe = ''[]''\<rparr>])
   \<and> app \<lparr>rows = [\<lparr>drink_id = 1, title = JStr ''Water'', recipe = ''[]''\<rparr>],
           next_id = 2, available = True\<rparr>
         \<lparr>route = PATCH_drinks 1, bearer = Verified [''patch:drinks''], data = JObj []\<rparr>
       = (\<lparr>rows = [\<lparr>drink_id = 1, title = JStr ''Water'', recipe = ''[]''\<rparr>],
            next_id = 2, available = True\<rparr>,
          \<lparr>status = 200,
           body = Json (JObj [(''success'', JBool True),
                   (''drinks'', JArr [JObj [(''id'', JInt 1), (''title'', JStr ''Water''),
                                            (''recipe'', JArr [])]])])\<rparr>)"
proof -
  let ?d = "\<lparr>rows = [\<lparr>drink_id = 1, title = JStr ''Water'', recipe = ''[]''\<rparr>],
             next_id = 2, available = True\<rparr>"
  let ?req = "\<lparr>route = PATCH_drinks 1, bearer = Verified [''patch:drinks''], data = JObj []\<rparr>"
  have h: "Drink_query_get ?d 1
     = Inr (Some \<lparr>drink_id = 1, title = JStr ''Water'', recipe = ''[]''\<rparr>)"
    by (simp add: Drink_query_get_def)
  have p: "''patch:drinks'' \<in> set [''patch:drinks'']" by simp
  have l: "json_loads (recipe \<lparr>drink_id = 1, title = JStr ''Water'', recipe = ''[]''\<rparr>)
             = Some (JArr [])"
    by (simp add: loads_empty_array)
  have ds: "distinct (map drink_id (rows ?d))" by simp
  from patch_empty_body_is_noop [OF h p l]
  have s: "snd (app ?d ?req)
           = \<lparr>status = 200,
              body = Json (JObj [(''success'', JBool True),
                      (''drinks'', JArr [JObj [(''id'', JInt (int 1)), (''title'',
                          title \<lparr>drink_id = 1, title = JStr ''Water'', recipe = ''[]''\<rparr>),
                                               (''recipe'', JArr [])]])])\<rparr>"
    and w: "distinct (map drink_id (rows ?d)) \<longrightarrow> fst (app ?d ?req) = ?d"
    by blast+
  show ?thesis using h p l ds s w by (simp add: prod_eq_iff)
qed


end
